theory Spec2Isabelle
  imports Main
begin

section \<open>JavaScript strings and values\<close>

text \<open>
  A JavaScript string is a sequence of UTF-16 code units, and \<open>length\<close> counts code
  units. A code unit is modelled as a natural number (below 65536 in every real string);
  ASCII literals of the source are written as Isabelle strings and converted by \<open>js\<close>.
\<close>

type_synonym jschar = nat
type_synonym jsstring = "jschar list"

definition js :: "string \<Rightarrow> jsstring" where
  "js cs = map of_char cs"

text \<open>
  The values the validators receive. \<open>JOther s\<close> stands for any value that is neither
  \<open>null\<close>, \<open>undefined\<close> nor a string (a number, a boolean, an object, a function)
  and that \<open>String(value)\<close> converts; it carries the string that the conversion yields.
  \<open>JUnconvertible\<close> stands for a value that \<open>String(value)\<close> cannot convert: an
  object without a usable \<open>toString\<close> or \<open>valueOf\<close>, such as
  \<open>Object.create(null)\<close>, or one whose \<open>toString\<close> throws. It is an object, so it
  is truthy and neither \<open>null\<close> nor \<open>undefined\<close>.
\<close>

datatype jsvalue = JNull | JUndefined | JString jsstring | JOther jsstring | JUnconvertible

text \<open>The errors that the code of the model can throw.\<close>

datatype jsError = RangeError | TypeError

text \<open>\<open>String(value)\<close>, which throws a TypeError for a value it cannot convert.\<close>

fun toJSString :: "jsvalue \<Rightarrow> jsError + jsstring" where
  "toJSString JNull = Inr (js ''null'')"
| "toJSString JUndefined = Inr (js ''undefined'')"
| "toJSString (JString s) = Inr s"
| "toJSString (JOther s) = Inr s"
| "toJSString JUnconvertible = Inl TypeError"

subsection \<open>Character classes of ECMAScript\<close>

definition isDigit :: "jschar \<Rightarrow> bool" where
  "isDigit c = (48 \<le> c \<and> c \<le> 57)"

definition isWordChar :: "jschar \<Rightarrow> bool" where
  "isWordChar c = ((97 \<le> c \<and> c \<le> 122) \<or> (65 \<le> c \<and> c \<le> 90) \<or> (48 \<le> c \<and> c \<le> 57) \<or> c = 95)"

text \<open>White space and line terminators: the set of \<open>\s\<close> and of \<open>String.prototype.trim\<close>.\<close>

definition isSpace :: "jschar \<Rightarrow> bool" where
  "isSpace c = ((9 \<le> c \<and> c \<le> 13) \<or> c = 32 \<or> c = 160 \<or> c = 5760 \<or> (8192 \<le> c \<and> c \<le> 8202)
     \<or> c = 8232 \<or> c = 8233 \<or> c = 8239 \<or> c = 8287 \<or> c = 12288 \<or> c = 65279)"

definition isLineTerminator :: "jschar \<Rightarrow> bool" where
  "isLineTerminator c = (c = 10 \<or> c = 13 \<or> c = 8232 \<or> c = 8233)"

text \<open>
  Case folding of the \<open>i\<close> flag (without the \<open>u\<close> flag), on the ASCII letters: two
  code units are equal under the flag when they are equal or differ by the case of an ASCII
  letter. Every pattern of this program that carries the \<open>i\<close> flag is written in ASCII, and
  a code unit from 128 on never folds to an ASCII one, so nothing more is needed.
\<close>

definition swapCase :: "jschar \<Rightarrow> jschar" where
  "swapCase c = (if 97 \<le> c \<and> c \<le> 122 then c - 32 else if 65 \<le> c \<and> c \<le> 90 then c + 32 else c)"

definition chEq :: "bool \<Rightarrow> jschar \<Rightarrow> jschar \<Rightarrow> bool" where
  "chEq ic p c = (c = p \<or> (ic \<and> swapCase c = p))"

section \<open>Regular expressions\<close>

text \<open>
  The regular expressions of the source, as syntax trees, with the backtracking semantics
  of ECMAScript: the matcher returns every way of matching from a position, in the order in
  which the backtracking engine tries them, so the head of the list is the match that
  \<open>exec\<close> reports. Parentheses only group, except \<open>Cap k\<close>, used for a group that a
  back-reference \<open>\k\<close> reads.
\<close>

datatype citem =
    Ch char            \<comment> \<open>one ASCII character\<close>
  | Rg char char       \<comment> \<open>a range of ASCII characters, \<open>a-z\<close>\<close>
  | ChU nat            \<comment> \<open>one code unit\<close>
  | RgU nat nat        \<comment> \<open>a range of code units\<close>
  | ClsD               \<comment> \<open>\<open>\d\<close>\<close>
  | ClsW               \<comment> \<open>\<open>\w\<close>\<close>
  | ClsS               \<comment> \<open>\<open>\s\<close>\<close>

datatype rx =
    Lit string         \<comment> \<open>a sequence of literal ASCII characters\<close>
  | CSet "citem list"  \<comment> \<open>\<open>[...]\<close>\<close>
  | NSet "citem list"  \<comment> \<open>\<open>[^...]\<close>\<close>
  | Dot                \<comment> \<open>\<open>.\<close>\<close>
  | Bol                \<comment> \<open>\<open>^\<close>\<close>
  | Eol                \<comment> \<open>\<open>$\<close>\<close>
  | WordB              \<comment> \<open>\<open>\b\<close>\<close>
  | Eps
  | Seq rx rx
  | Alt rx rx
  | Rep nat "nat option" rx   \<comment> \<open>\<open>{lo,hi}\<close>, greedy; no upper bound when \<open>None\<close>\<close>
  | Cap nat rx
  | BackRef nat
  | NegLook rx         \<comment> \<open>\<open>(?!...)\<close>\<close>

definition Star :: "rx \<Rightarrow> rx" where "Star r = Rep 0 None r"
definition Plus :: "rx \<Rightarrow> rx" where "Plus r = Rep 1 None r"
definition Opt :: "rx \<Rightarrow> rx" where "Opt r = Rep 0 (Some 1) r"

fun cat :: "rx list \<Rightarrow> rx" where
  "cat [] = Eps"
| "cat [r] = r"
| "cat (r # rs) = Seq r (cat rs)"

fun alts :: "rx list \<Rightarrow> rx" where
  "alts [] = NSet [RgU 0 65535]"
| "alts [r] = r"
| "alts (r # rs) = Alt r (alts rs)"

fun citemHit :: "citem \<Rightarrow> jschar \<Rightarrow> bool" where
  "citemHit (Ch a) c = (c = of_char a)"
| "citemHit (Rg a b) c = (of_char a \<le> c \<and> c \<le> of_char b)"
| "citemHit (ChU a) c = (c = a)"
| "citemHit (RgU a b) c = (a \<le> c \<and> c \<le> b)"
| "citemHit ClsD c = isDigit c"
| "citemHit ClsW c = isWordChar c"
| "citemHit ClsS c = isSpace c"

definition inSet :: "bool \<Rightarrow> citem list \<Rightarrow> jschar \<Rightarrow> bool" where
  "inSet ic items c = (\<exists>it \<in> set items. citemHit it c \<or> (ic \<and> citemHit it (swapCase c)))"

text \<open>
  The state of a match: the code unit before the current position (none at the start of
  the input), the input from the current position on, and the captures made so far.
\<close>

type_synonym mst = "jschar option \<times> jsstring \<times> (nat \<times> jsstring) list"

definition rest :: "mst \<Rightarrow> jsstring" where
  "rest st = fst (snd st)"

fun lit :: "bool \<Rightarrow> jsstring \<Rightarrow> mst \<Rightarrow> mst list" where
  "lit ic [] st = [st]"
| "lit ic (p # ps) (pv, [], cp) = []"
| "lit ic (p # ps) (pv, c # cs, cp) = (if chEq ic p c then lit ic ps (Some c, cs, cp) else [])"

fun oneChar :: "(jschar \<Rightarrow> bool) \<Rightarrow> mst \<Rightarrow> mst list" where
  "oneChar P (pv, [], cp) = []"
| "oneChar P (pv, c # cs, cp) = (if P c then [(Some c, cs, cp)] else [])"

fun atWordB :: "mst \<Rightarrow> bool" where
  "atWordB (pv, cs, cp) =
     ((case pv of None \<Rightarrow> False | Some a \<Rightarrow> isWordChar a)
      \<noteq> (case cs of [] \<Rightarrow> False | c # _ \<Rightarrow> isWordChar c))"

text \<open>\<open>exactly n f\<close>: exactly \<open>n\<close> iterations of \<open>f\<close>.\<close>

fun exactly :: "nat \<Rightarrow> (mst \<Rightarrow> mst list) \<Rightarrow> mst \<Rightarrow> mst list" where
  "exactly 0 f st = [st]"
| "exactly (Suc n) f st = concat (map (exactly n f) (f st))"

text \<open>
  \<open>greedy n f\<close>: at most \<open>n\<close> further iterations, as many as possible first. An
  iteration that consumes nothing is rejected, as ECMAScript's RepeatMatcher does; so an
  unbounded repetition needs no more iterations than there are code units left, and that
  number is the bound it is given below.
\<close>

fun greedy :: "nat \<Rightarrow> (mst \<Rightarrow> mst list) \<Rightarrow> mst \<Rightarrow> mst list" where
  "greedy 0 f st = [st]"
| "greedy (Suc n) f st =
     concat (map (greedy n f) (filter (\<lambda>st'. length (rest st') < length (rest st)) (f st))) @ [st]"

primrec m :: "rx \<Rightarrow> bool \<Rightarrow> mst \<Rightarrow> mst list" where
  "m (Lit s) ic st = lit ic (js s) st"
| "m (CSet items) ic st = oneChar (inSet ic items) st"
| "m (NSet items) ic st = oneChar (\<lambda>c. \<not> inSet ic items c) st"
| "m Dot ic st = oneChar (\<lambda>c. \<not> isLineTerminator c) st"
| "m Bol ic st = (if fst st = None then [st] else [])"
| "m Eol ic st = (if rest st = [] then [st] else [])"
| "m WordB ic st = (if atWordB st then [st] else [])"
| "m Eps ic st = [st]"
| "m (Seq a b) ic st = concat (map (m b ic) (m a ic st))"
| "m (Alt a b) ic st = m a ic st @ m b ic st"
| "m (Rep lo hi r) ic st =
     concat (map (\<lambda>st'. greedy (case hi of None \<Rightarrow> length (rest st') | Some h \<Rightarrow> h - lo) (m r ic) st')
                 (exactly lo (m r ic) st))"
| "m (Cap k r) ic st =
     map (\<lambda>st'. (fst st', rest st', (k, take (length (rest st) - length (rest st')) (rest st)) # snd (snd st')))
         (m r ic st)"
| "m (BackRef k) ic st = (case map_of (snd (snd st)) k of None \<Rightarrow> [st] | Some w \<Rightarrow> lit ic w st)"
| "m (NegLook r) ic st = (if m r ic st = [] then [st] else [])"

text \<open>
  The leftmost match at or after the current position: the offset of its start from the
  current position, and its length.
\<close>

fun search :: "rx \<Rightarrow> bool \<Rightarrow> jschar option \<Rightarrow> jsstring \<Rightarrow> (nat \<times> nat) option" where
  "search r ic pv [] = (case m r ic (pv, [], []) of [] \<Rightarrow> None | st # _ \<Rightarrow> Some (0, 0))"
| "search r ic pv (c # cs) =
     (case m r ic (pv, c # cs, []) of
        [] \<Rightarrow> map_option (\<lambda>(a, l). (Suc a, l)) (search r ic (Some c) cs)
      | st # _ \<Rightarrow> Some (0, Suc (length cs) - length (rest st)))"

text \<open>Whether the pattern matches anywhere in the string (a search from index 0).\<close>

definition matches :: "rx \<Rightarrow> bool \<Rightarrow> jsstring \<Rightarrow> bool" where
  "matches r ic s = (search r ic None s \<noteq> None)"

subsection \<open>RegExp objects and \<open>RegExp.prototype.test\<close>\<close>

text \<open>
  A RegExp object carries its flags and the mutable property \<open>lastIndex\<close>. With the
  \<open>g\<close> flag, \<open>test\<close> starts at \<open>lastIndex\<close>, stores the end of the match there when
  it succeeds and 0 when it fails; without it, \<open>lastIndex\<close> is neither read nor written.
\<close>

record regex =
  pat :: rx
  ignoreCase :: bool
  global :: bool
  lastIndex :: nat

definition mkRegex :: "rx \<Rightarrow> bool \<Rightarrow> bool \<Rightarrow> regex" where
  "mkRegex r ic g = \<lparr>pat = r, ignoreCase = ic, global = g, lastIndex = 0\<rparr>"

definition test :: "regex \<Rightarrow> jsstring \<Rightarrow> bool \<times> regex" where
  "test re s =
     (let li = (if global re then lastIndex re else 0) in
      if li > length s then (False, if global re then re\<lparr>lastIndex := 0\<rparr> else re)
      else
        (case search (pat re) (ignoreCase re) (if li = 0 then None else Some (s ! (li - 1))) (drop li s) of
           None \<Rightarrow> (False, if global re then re\<lparr>lastIndex := 0\<rparr> else re)
         | Some (off, len) \<Rightarrow> (True, if global re then re\<lparr>lastIndex := li + off + len\<rparr> else re)))"


subsection \<open>\<open>String.prototype.replace\<close> with a global pattern, and \<open>trim\<close>\<close>

text \<open>
  \<open>s.replace(/r/g, '')\<close>: every match is deleted, from left to right; the search goes
  on after the end of a match, and one position further after an empty match. The pattern
  still sees the original input (the code unit before the current position).
\<close>

function replaceAll :: "rx \<Rightarrow> bool \<Rightarrow> jschar option \<Rightarrow> jsstring \<Rightarrow> jsstring" where
  "replaceAll r ic pv [] = []"
| "replaceAll r ic pv (c # cs) =
     (case m r ic (pv, c # cs, []) of
        [] \<Rightarrow> c # replaceAll r ic (Some c) cs
      | st # _ \<Rightarrow>
          (let len = Suc (length cs) - length (rest st) in
           if len = 0 then c # replaceAll r ic (Some c) cs
           else replaceAll r ic (Some ((c # cs) ! (len - 1))) (drop len (c # cs))))"
  by pat_completeness auto
termination
  by (relation "measure (\<lambda>(r, ic, pv, cs). length cs)") auto

definition trim :: "jsstring \<Rightarrow> jsstring" where
  "trim s = rev (dropWhile isSpace (rev (dropWhile isSpace s)))"

section \<open>Plain objects\<close>

text \<open>
  A plain JavaScript object is an association list of its own properties, in the order in
  which \<open>Object.entries\<close> enumerates them. A property read \<open>obj[k]\<close> and the test
  \<open>k in obj\<close> also see the properties inherited from \<open>Object.prototype\<close>: such a name
  yields a value that is an object or a function (so neither \<open>null\<close> nor
  \<open>undefined\<close>, and truthy) unless the object has an own property of that name.
\<close>

type_synonym 'a jsobject = "(jsstring \<times> 'a) list"

definition objectPrototypeKeys :: "jsstring list" where
  "objectPrototypeKeys = map js
     [''constructor'', ''hasOwnProperty'', ''isPrototypeOf'', ''propertyIsEnumerable'',
      ''toLocaleString'', ''toString'', ''valueOf'', ''__proto__'',
      ''__defineGetter__'', ''__defineSetter__'', ''__lookupGetter__'', ''__lookupSetter__'']"

datatype 'a property = Own 'a | Inherited | Absent

definition getProp :: "'a jsobject \<Rightarrow> jsstring \<Rightarrow> 'a property" where
  "getProp obj k =
     (case map_of obj k of
        Some x \<Rightarrow> Own x
      | None \<Rightarrow> if k \<in> set objectPrototypeKeys then Inherited else Absent)"

text \<open>
  The assignment \<open>obj[k] = x\<close>. Assigning to \<open>__proto__\<close> goes to the inherited
  setter and creates no own property.
\<close>

definition setProp :: "'a jsobject \<Rightarrow> jsstring \<Rightarrow> 'a \<Rightarrow> 'a jsobject" where
  "setProp obj k x =
     (if k = js ''__proto__'' then obj
      else if k \<in> fst ` set obj then map (\<lambda>(k', x'). if k' = k then (k', x) else (k', x')) obj
      else obj @ [(k, x)])"


section \<open>The input validator used by both validators\<close>

text \<open>
  Both \<open>DataValidator\<close> and \<open>ICCardValidator\<close> call \<open>sanitizeString\<close> and
  \<open>isValidString\<close> on their member \<open>inputValidator\<close>. The module that defines these two
  methods is not among the sources, so the collaborator is a parameter of the model: any
  pair of functions, \<open>sanitizeString\<close> returning a string.
\<close>

record inputValidator =
  sanitizeString :: "jsvalue \<Rightarrow> jsstring"
  isValidString :: "jsstring \<Rightarrow> bool"

section \<open>DataValidator\<close>

text \<open>
  The \<open>pattern\<close> property of a rule. The rules of the constructor carry a RegExp object
  or \<open>null\<close>; \<open>addValidationRule\<close> registers a rule without looking at its
  \<open>pattern\<close>, so a registered rule may also carry a truthy value that is no RegExp (a
  string holding the pattern, say), whose \<open>test\<close> is not a function. \<open>NoPattern\<close>
  stands for \<open>null\<close>, \<open>undefined\<close> and every other falsy value.
\<close>

datatype patternValue = NoPattern | RegExpPattern regex | NotRegExp

text \<open>
  A validation rule. The human-readable \<open>description\<close> of a rule and the \<open>message\<close>
  texts of the results are used in no decision and are left out of the model, as are the
  logger calls and the wall-clock reading \<open>lastValidation\<close>. \<open>maxLength\<close> is a
  number, \<open>required\<close> and \<open>sanitize\<close> are read for their truthiness.
\<close>

record rule =
  pattern :: patternValue
  maxLength :: nat
  required :: bool
  sanitize :: bool

record violationTypes =
  sqlInjection :: nat
  osCommand :: nat
  xss :: nat
  invalidFormat :: nat
  excessiveLength :: nat

record stats =
  totalValidations :: nat
  successfulValidations :: nat
  failedValidations :: nat
  securityViolations :: nat
  violationTypes :: violationTypes

record dataValidator =
  validationRules :: "rule jsobject"
  sqlInjectionPatterns :: "regex list"
  osCommandPatterns :: "regex list"
  xssPatterns :: "regex list"
  stats :: stats

subsection \<open>The constructor's tables\<close>

definition plain :: "rx \<Rightarrow> regex" where "plain r = mkRegex r False False"

text \<open>Hiragana, katakana, the long-vowel mark and the kanji range U+4E00 to U+9FA0.\<close>

definition japanese :: "citem list" where
  "japanese = [RgU 12353 12435, RgU 12449 12534, ChU 12540, RgU 19968 40864]"

definition alpha :: "citem list" where
  "alpha = [Rg CHR ''a'' CHR ''z'', Rg CHR ''A'' CHR ''Z'']"

definition digit09 :: "citem list" where
  "digit09 = [Rg CHR ''0'' CHR ''9'']"

definition initialRules :: "rule jsobject" where
  "initialRules =
   [(js ''employeeId'',
       \<lparr>pattern = RegExpPattern (plain (cat [Bol, Rep 6 (Some 12) (CSet [Rg CHR ''A'' CHR ''Z'', Rg CHR ''a'' CHR ''z'', Rg CHR ''0'' CHR ''9'']), Eol])),
        maxLength = 12, required = True, sanitize = True\<rparr>),
    (js ''employeeName'',
       \<lparr>pattern = RegExpPattern (plain (cat [Bol, Rep 1 (Some 50) (CSet (japanese @ alpha @ [ClsS])), Eol])),
        maxLength = 50, required = True, sanitize = True\<rparr>),
    (js ''department'',
       \<lparr>pattern = RegExpPattern (plain (cat [Bol, Rep 1 (Some 30) (CSet (japanese @ alpha @ digit09 @ [ClsS, Ch CHR ''-''])), Eol])),
        maxLength = 30, required = True, sanitize = True\<rparr>),
    (js ''email'',
       \<lparr>pattern = RegExpPattern (plain (cat [Bol,
           Plus (CSet (alpha @ digit09 @ [Ch CHR ''.'', Ch CHR ''_'', Ch CHR ''%'', Ch CHR ''+'', Ch CHR ''-''])),
           Lit ''@'',
           Plus (CSet (alpha @ digit09 @ [Ch CHR ''.'', Ch CHR ''-''])),
           Lit ''.'',
           Rep 2 None (CSet alpha), Eol])),
        maxLength = 100, required = False, sanitize = True\<rparr>),
    (js ''phoneNumber'',
       \<lparr>pattern = RegExpPattern (plain (cat [Bol, Rep 10 (Some 15) (CSet (digit09 @ [Ch CHR ''-'', Ch CHR ''('', Ch CHR '')'', ClsS])), Eol])),
        maxLength = 15, required = False, sanitize = True\<rparr>),
    (js ''icCardNumber'',
       \<lparr>pattern = RegExpPattern (plain (cat [Bol, Rep 4 (Some 20) (CSet digit09), Eol])),
        maxLength = 20, required = True, sanitize = True\<rparr>),
    (js ''cardType'',
       \<lparr>pattern = RegExpPattern (plain (cat [Bol,
           alts [Lit ''SUICA'', Lit ''PASMO'', Lit ''ICOCA'', Lit ''MANACA'', Lit ''TOICA'', Lit ''SUGOCA'',
                 Lit ''KITACA'', Lit ''HAYAKAKEN'', Lit ''NIMOCA'', Lit ''CORPORATE'', Lit ''STUDENT''], Eol])),
        maxLength = 20, required = True, sanitize = True\<rparr>),
    (js ''lossDate'',
       \<lparr>pattern = RegExpPattern (plain (cat [Bol, Rep 4 (Some 4) (CSet [ClsD]), Lit ''-'', Rep 2 (Some 2) (CSet [ClsD]),
                                     Lit ''-'', Rep 2 (Some 2) (CSet [ClsD]), Eol])),
        maxLength = 10, required = True, sanitize = True\<rparr>),
    (js ''lossTime'',
       \<lparr>pattern = RegExpPattern (plain (cat [Bol,
           alts [cat [Opt (CSet [Ch CHR ''0'', Ch CHR ''1'']), CSet digit09], cat [Lit ''2'', CSet [Rg CHR ''0'' CHR ''3'']]],
           Lit '':'', CSet [Rg CHR ''0'' CHR ''5''], CSet digit09, Eol])),
        maxLength = 5, required = False, sanitize = True\<rparr>),
    (js ''lossLocation'',
       \<lparr>pattern = RegExpPattern (plain (cat [Bol, Rep 1 (Some 100) (CSet (japanese @ alpha @ digit09 @ [ClsS, Ch CHR ''-'', Ch CHR ''('', Ch CHR '')''])), Eol])),
        maxLength = 100, required = True, sanitize = True\<rparr>),
    (js ''transportationProvider'',
       \<lparr>pattern = RegExpPattern (plain (cat [Bol, Rep 1 (Some 50) (CSet (japanese @ alpha @ digit09 @ [ClsS, Ch CHR ''-''])), Eol])),
        maxLength = 50, required = False, sanitize = True\<rparr>),
    (js ''reportStatus'',
       \<lparr>pattern = RegExpPattern (plain (cat [Bol,
           alts [Lit ''DRAFT'', Lit ''SUBMITTED'', Lit ''PROCESSING'', Lit ''COMPLETED'', Lit ''CANCELLED''], Eol])),
        maxLength = 20, required = True, sanitize = True\<rparr>),
    (js ''priority'',
       \<lparr>pattern = RegExpPattern (plain (cat [Bol, alts [Lit ''LOW'', Lit ''MEDIUM'', Lit ''HIGH'', Lit ''URGENT''], Eol])),
        maxLength = 10, required = False, sanitize = True\<rparr>),
    (js ''description'',
       \<lparr>pattern = NoPattern, maxLength = 500, required = False, sanitize = True\<rparr>),
    (js ''notes'',
       \<lparr>pattern = NoPattern, maxLength = 1000, required = False, sanitize = True\<rparr>)]"

text \<open>
  The five SQL patterns, in the source's order; the first, third, fourth and fifth carry
  the \<open>i\<close> flag, none carries \<open>g\<close>. The fourth refers back to its first group (the
  quote character).
\<close>

definition word :: "string list \<Rightarrow> rx" where
  "word ws = cat [WordB, alts (map Lit ws), WordB]"

definition initialSqlInjectionPatterns :: "regex list" where
  "initialSqlInjectionPatterns =
   [mkRegex (word [''SELECT'', ''INSERT'', ''UPDATE'', ''DELETE'', ''DROP'', ''CREATE'', ''ALTER'', ''EXEC'', ''UNION'']) True False,
    mkRegex (alts [Lit ''--'', Lit ''#'', Lit ''/*'', Lit ''*/'']) False False,
    mkRegex (cat [word [''OR'', ''AND''], Star Dot, Lit ''='', Star Dot, alts [word [''OR'', ''AND''], Eol]]) True False,
    mkRegex (cat [Cap 1 (alts [Lit [CHR 0x27], Lit [CHR 0x22]]), Star Dot,
                  alts [cat [WordB, Lit ''OR'', WordB], cat [WordB, Lit ''AND'', WordB]],
                  Star Dot, BackRef 1]) True False,
    mkRegex (word [''SCRIPT'', ''JAVASCRIPT'', ''VBSCRIPT'']) True False]"

text \<open>The four OS-command and path-traversal patterns; the second and fourth carry \<open>i\<close>.\<close>

definition initialOsCommandPatterns :: "regex list" where
  "initialOsCommandPatterns =
   [mkRegex (alts [Lit ''|'', Lit '';'', Lit ''&'', Lit [CHR 0x60], Lit ''$('', Lit ''${'']) False False,
    mkRegex (word [''rm'', ''del'', ''format'', ''mkdir'', ''rmdir'', ''copy'', ''move'', ''exec'', ''eval'', ''system'', ''shell_exec'']) True False,
    mkRegex (alts [Lit ''../'', Lit [CHR ''.'', CHR ''.'', CHR 0x5C]]) False False,
    mkRegex (word [''sudo'', ''su'', ''chmod'', ''chown'']) True False]"

text \<open>The five XSS patterns; every one carries both \<open>g\<close> and \<open>i\<close>.\<close>

definition element :: "string \<Rightarrow> rx" where
  "element tag =
     cat [Lit (''<'' @ tag), WordB, Star (NSet [Ch CHR ''<'']),
          Star (cat [NegLook (Lit (''</'' @ tag @ ''>'')), Lit ''<'', Star (NSet [Ch CHR ''<''])]),
          Lit (''</'' @ tag @ ''>'')]"

definition initialXssPatterns :: "regex list" where
  "initialXssPatterns =
   [mkRegex (element ''script'') True True,
    mkRegex (element ''iframe'') True True,
    mkRegex (Lit ''javascript:'') True True,
    mkRegex (cat [Lit ''on'', Plus (CSet [ClsW]), Star (CSet [ClsS]), Lit ''='']) True True,
    mkRegex (cat [Lit ''<'', Star (CSet [ClsS]), alts [Lit ''object'', Lit ''embed'', Lit ''applet'', Lit ''meta''], WordB]) True True]"

definition initialStats :: stats where
  "initialStats =
     \<lparr>totalValidations = 0, successfulValidations = 0, failedValidations = 0, securityViolations = 0,
      violationTypes = \<lparr>sqlInjection = 0, osCommand = 0, xss = 0, invalidFormat = 0, excessiveLength = 0\<rparr>\<rparr>"

definition newDataValidator :: dataValidator where
  "newDataValidator =
     \<lparr>validationRules = initialRules,
      sqlInjectionPatterns = initialSqlInjectionPatterns,
      osCommandPatterns = initialOsCommandPatterns,
      xssPatterns = initialXssPatterns,
      stats = initialStats\<rparr>"


subsection \<open>performSecurityCheck\<close>

datatype violation = SQL_INJECTION | OS_COMMAND_INJECTION | XSS

text \<open>
  The result of a scan: \<open>safe: true\<close>, or the violation kind with the pattern that
  matched. The \<open>catch\<close> branch of the source (\<open>SECURITY_CHECK_ERROR\<close>) is not reachable:
  \<open>test\<close> on a string does not throw.
\<close>

datatype securityCheck = Safe | Unsafe violation rx

text \<open>
  One \<open>for\<close> loop of the scan: the patterns are tested in order until one succeeds.
  Every pattern tested is a RegExp object of the validator, and \<open>test\<close> may change its
  \<open>lastIndex\<close>; the loop returns the patterns as it leaves them.
\<close>

fun firstMatch :: "regex list \<Rightarrow> jsstring \<Rightarrow> rx option \<times> regex list" where
  "firstMatch [] s = (None, [])"
| "firstMatch (re # res) s =
     (case test re s of
        (True, re') \<Rightarrow> (Some (pat re'), re' # res)
      | (False, re') \<Rightarrow> (case firstMatch res s of (found, res') \<Rightarrow> (found, re' # res')))"

definition incSqlInjection :: "dataValidator \<Rightarrow> dataValidator" where
  "incSqlInjection v =
     v\<lparr>stats := (stats v)\<lparr>violationTypes := (violationTypes (stats v))\<lparr>sqlInjection := sqlInjection (violationTypes (stats v)) + 1\<rparr>\<rparr>\<rparr>"

definition incOsCommand :: "dataValidator \<Rightarrow> dataValidator" where
  "incOsCommand v =
     v\<lparr>stats := (stats v)\<lparr>violationTypes := (violationTypes (stats v))\<lparr>osCommand := osCommand (violationTypes (stats v)) + 1\<rparr>\<rparr>\<rparr>"

definition incXss :: "dataValidator \<Rightarrow> dataValidator" where
  "incXss v =
     v\<lparr>stats := (stats v)\<lparr>violationTypes := (violationTypes (stats v))\<lparr>xss := xss (violationTypes (stats v)) + 1\<rparr>\<rparr>\<rparr>"

definition performSecurityCheck :: "dataValidator \<Rightarrow> jsstring \<Rightarrow> jsstring \<Rightarrow> securityCheck \<times> dataValidator" where
  "performSecurityCheck v value fieldName =
     (case firstMatch (sqlInjectionPatterns v) value of
        (Some p, sql') \<Rightarrow> (Unsafe SQL_INJECTION p, incSqlInjection (v\<lparr>sqlInjectionPatterns := sql'\<rparr>))
      | (None, sql') \<Rightarrow>
          (let v1 = v\<lparr>sqlInjectionPatterns := sql'\<rparr> in
           case firstMatch (osCommandPatterns v1) value of
             (Some p, os') \<Rightarrow> (Unsafe OS_COMMAND_INJECTION p, incOsCommand (v1\<lparr>osCommandPatterns := os'\<rparr>))
           | (None, os') \<Rightarrow>
               (let v2 = v1\<lparr>osCommandPatterns := os'\<rparr> in
                case firstMatch (xssPatterns v2) value of
                  (Some p, xss') \<Rightarrow> (Unsafe XSS p, incXss (v2\<lparr>xssPatterns := xss'\<rparr>))
                | (None, xss') \<Rightarrow> (Safe, v2\<lparr>xssPatterns := xss'\<rparr>))))"

subsection \<open>validateField\<close>

datatype fieldError =
    UNKNOWN_FIELD
  | REQUIRED_FIELD
  | SECURITY_VIOLATION violation           \<comment> \<open>with \<open>violationType\<close>\<close>
  | EXCESSIVE_LENGTH nat nat               \<comment> \<open>with \<open>actualLength\<close> and \<open>maxLength\<close>\<close>
  | INVALID_FORMAT
  | VALIDATION_ERROR

text \<open>
  \<open>Valid sanitizedValue originalValue\<close>; the result for an absent optional value has no
  \<open>originalValue\<close>.
\<close>

datatype fieldResult = Valid jsstring "jsstring option" | Invalid fieldError

definition incTotal :: "dataValidator \<Rightarrow> dataValidator" where
  "incTotal v = v\<lparr>stats := (stats v)\<lparr>totalValidations := totalValidations (stats v) + 1\<rparr>\<rparr>"

definition incSuccessful :: "dataValidator \<Rightarrow> dataValidator" where
  "incSuccessful v = v\<lparr>stats := (stats v)\<lparr>successfulValidations := successfulValidations (stats v) + 1\<rparr>\<rparr>"

definition incFailed :: "dataValidator \<Rightarrow> dataValidator" where
  "incFailed v = v\<lparr>stats := (stats v)\<lparr>failedValidations := failedValidations (stats v) + 1\<rparr>\<rparr>"

definition incSecurityViolations :: "dataValidator \<Rightarrow> dataValidator" where
  "incSecurityViolations v = v\<lparr>stats := (stats v)\<lparr>securityViolations := securityViolations (stats v) + 1\<rparr>\<rparr>"

definition incExcessiveLength :: "dataValidator \<Rightarrow> dataValidator" where
  "incExcessiveLength v =
     v\<lparr>stats := (stats v)\<lparr>violationTypes := (violationTypes (stats v))\<lparr>excessiveLength := excessiveLength (violationTypes (stats v)) + 1\<rparr>\<rparr>\<rparr>"

definition incInvalidFormat :: "dataValidator \<Rightarrow> dataValidator" where
  "incInvalidFormat v =
     v\<lparr>stats := (stats v)\<lparr>violationTypes := (violationTypes (stats v))\<lparr>invalidFormat := invalidFormat (violationTypes (stats v)) + 1\<rparr>\<rparr>\<rparr>"

definition isNullish :: "jsvalue \<Rightarrow> bool" where
  "isNullish x = (x = JNull \<or> x = JUndefined)"

text \<open>
  The rule that \<open>this.validationRules[fieldName]\<close> yields is \<open>Some\<close> registered rule,
  or (\<open>None\<close>) an object inherited from \<open>Object.prototype\<close>, every rule property of
  which reads as \<open>undefined\<close>: not required, no pattern, no sanitization, and
  \<open>length > undefined\<close> is false.
\<close>

definition ruleRequired :: "rule option \<Rightarrow> bool" where
  "ruleRequired r = (case r of None \<Rightarrow> False | Some x \<Rightarrow> required x)"

definition ruleSanitize :: "rule option \<Rightarrow> bool" where
  "ruleSanitize r = (case r of None \<Rightarrow> False | Some x \<Rightarrow> sanitize x)"

definition rulePattern :: "rule option \<Rightarrow> patternValue" where
  "rulePattern r = (case r of None \<Rightarrow> NoPattern | Some x \<Rightarrow> pattern x)"

definition exceedsMaxLength :: "jsstring \<Rightarrow> rule option \<Rightarrow> bool" where
  "exceedsMaxLength s r = (case r of None \<Rightarrow> False | Some x \<Rightarrow> length s > maxLength x)"

definition ruleMaxLength :: "rule option \<Rightarrow> nat" where
  "ruleMaxLength r = (case r of None \<Rightarrow> 0 | Some x \<Rightarrow> maxLength x)"

text \<open>\<open>rule.pattern.test\<close> leaves the (possibly changed) RegExp object in the registered rule.\<close>

definition storePattern :: "dataValidator \<Rightarrow> jsstring \<Rightarrow> regex \<Rightarrow> dataValidator" where
  "storePattern v fieldName re =
     v\<lparr>validationRules :=
         map (\<lambda>(k, r). if k = fieldName then (k, r\<lparr>pattern := RegExpPattern re\<rparr>) else (k, r)) (validationRules v)\<rparr>"

definition finishField :: "inputValidator \<Rightarrow> dataValidator \<Rightarrow> rule option \<Rightarrow> jsstring \<Rightarrow> fieldResult \<times> dataValidator" where
  "finishField iv v r stringValue =
     (Valid (if ruleSanitize r then sanitizeString iv (JString stringValue) else stringValue) (Some stringValue),
      incSuccessful v)"

text \<open>
  The \<open>catch\<close> branch: whatever was thrown, the failure is counted on the statistics as
  they are by then and the result is \<open>VALIDATION_ERROR\<close>.
\<close>

definition caughtField :: "dataValidator \<Rightarrow> fieldResult \<times> dataValidator" where
  "caughtField v = (Invalid VALIDATION_ERROR, incFailed v)"

text \<open>
  The body of the \<open>try\<close> block once the rule is found. Two of its steps can throw:
  \<open>String(value)\<close>, before the scan, and \<open>rule.pattern.test\<close> when the pattern of the
  rule is no RegExp, after the scan and the length and required checks have passed.
\<close>

definition checkField :: "inputValidator \<Rightarrow> dataValidator \<Rightarrow> jsstring \<Rightarrow> rule option \<Rightarrow> jsvalue \<Rightarrow> bool
    \<Rightarrow> fieldResult \<times> dataValidator" where
  "checkField iv v fieldName r value allowEmpty =
     (if isNullish value then
        (if ruleRequired r \<and> \<not> allowEmpty then (Invalid REQUIRED_FIELD, incFailed v)
         else (Valid [] None, incSuccessful v))
      else
        (case toJSString value of
           Inl e \<Rightarrow> caughtField v
         | Inr stringValue \<Rightarrow>
            (case performSecurityCheck v stringValue fieldName of
               (Unsafe viol p, v1) \<Rightarrow>
                 (Invalid (SECURITY_VIOLATION viol), incFailed (incSecurityViolations v1))
             | (Safe, v1) \<Rightarrow>
                 if exceedsMaxLength stringValue r then
                   (Invalid (EXCESSIVE_LENGTH (length stringValue) (ruleMaxLength r)), incFailed (incExcessiveLength v1))
                 else if ruleRequired r \<and> length (trim stringValue) = 0 then
                   (Invalid REQUIRED_FIELD, incFailed v1)
                 else
                   (case rulePattern r of
                      RegExpPattern re \<Rightarrow>
                        if length (trim stringValue) > 0 then
                          (case test re stringValue of
                             (False, re') \<Rightarrow> (Invalid INVALID_FORMAT, incFailed (incInvalidFormat (storePattern v1 fieldName re')))
                           | (True, re') \<Rightarrow> finishField iv (storePattern v1 fieldName re') r stringValue)
                        else finishField iv v1 r stringValue
                    | NotRegExp \<Rightarrow>
                        if length (trim stringValue) > 0 then caughtField v1
                        else finishField iv v1 r stringValue
                    | NoPattern \<Rightarrow> finishField iv v1 r stringValue))))"

definition validateField :: "inputValidator \<Rightarrow> dataValidator \<Rightarrow> jsstring \<Rightarrow> jsvalue \<Rightarrow> bool
    \<Rightarrow> fieldResult \<times> dataValidator" where
  "validateField iv v fieldName value allowEmpty =
     (let v0 = incTotal v in
      case getProp (validationRules v0) fieldName of
        Absent \<Rightarrow> (Invalid UNKNOWN_FIELD, incFailed v0)
      | Inherited \<Rightarrow> checkField iv v0 fieldName None value allowEmpty
      | Own r \<Rightarrow> checkField iv v0 fieldName (Some r) value allowEmpty)"

subsection \<open>validateObject\<close>

datatype objectError =
    MISSING_REQUIRED_FIELD jsstring        \<comment> \<open>with \<open>field\<close>\<close>
  | FieldFailure jsstring fieldError       \<comment> \<open>\<open>{field: fieldName, ...fieldResult}\<close>\<close>

record 'h results =
  valid :: bool
  errors :: "objectError list"
  sanitizedData :: "jsstring jsobject"
  fieldResults :: "fieldResult jsobject"
  dataHash :: "'h option"

text \<open>\<open>!(field in data) || data[field] === null || data[field] === undefined\<close>\<close>

definition isMissing :: "jsvalue jsobject \<Rightarrow> jsstring \<Rightarrow> bool" where
  "isMissing data field =
     (case getProp data field of Absent \<Rightarrow> True | Inherited \<Rightarrow> False | Own x \<Rightarrow> isNullish x)"

text \<open>The first loop: one error for each entry of \<open>requiredFields\<close> that is missing.\<close>

fun checkRequired :: "jsvalue jsobject \<Rightarrow> jsstring list \<Rightarrow> 'h results \<Rightarrow> 'h results" where
  "checkRequired data [] res = res"
| "checkRequired data (field # others) res =
     checkRequired data others
       (if isMissing data field
        then res\<lparr>valid := False, errors := errors res @ [MISSING_REQUIRED_FIELD field]\<rparr>
        else res)"

text \<open>The second loop, over \<open>Object.entries(data)\<close>, with the default options of validateField.\<close>

fun validateEntries :: "inputValidator \<Rightarrow> dataValidator \<Rightarrow> jsvalue jsobject \<Rightarrow> 'h results
    \<Rightarrow> 'h results \<times> dataValidator" where
  "validateEntries iv v [] res = (res, v)"
| "validateEntries iv v ((fieldName, value) # entries) res =
     (case validateField iv v fieldName value False of
        (fieldResult, v') \<Rightarrow>
          (let res1 = res\<lparr>fieldResults := setProp (fieldResults res) fieldName fieldResult\<rparr> in
           validateEntries iv v' entries
             (case fieldResult of
                Valid sanitizedValue orig \<Rightarrow>
                  res1\<lparr>sanitizedData := setProp (sanitizedData res1) fieldName sanitizedValue\<rparr>
              | Invalid e \<Rightarrow>
                  res1\<lparr>valid := False, errors := errors res1 @ [FieldFailure fieldName e]\<rparr>)))"

text \<open>
  \<open>generateHash\<close> stands for \<open>hashManager.generateHash(JSON.stringify(...))\<close>; the hash
  manager is a collaborator of the validator. \<open>data\<close> is the list of the own entries of
  the object, \<open>requiredFields\<close> the array. validateField catches what it throws, so
  neither loop throws when \<open>data\<close> is an object.
\<close>

definition validateObject :: "inputValidator \<Rightarrow> (jsstring jsobject \<Rightarrow> 'h) \<Rightarrow> dataValidator
    \<Rightarrow> jsvalue jsobject \<Rightarrow> jsstring list \<Rightarrow> 'h results \<times> dataValidator" where
  "validateObject iv generateHash v data requiredFields =
     (let res0 = \<lparr>valid = True, errors = [], sanitizedData = [], fieldResults = [], dataHash = None\<rparr>;
          res1 = checkRequired data requiredFields res0
      in case validateEntries iv v data res1 of
           (res2, v') \<Rightarrow> (res2\<lparr>dataHash := Some (generateHash (sanitizedData res2))\<rparr>, v'))"


section \<open>InputValidator.sanitizeInput\<close>

text \<open>
  \<open>sanitizeInput\<close> of \<open>InputValidator.js\<close>: the empty string for anything that is not a
  string; otherwise the control characters are removed, then the complete \<open>script\<close>,
  \<open>iframe\<close> and \<open>object\<close> elements, the event-handler attributes, the
  \<open>javascript:\<close> and \<open>vbscript:\<close> schemes, and the result is trimmed. Every
  pattern is a literal of the function body with the flags \<open>gi\<close>, so each call works on
  fresh RegExp objects.
\<close>

definition isControl :: "jschar \<Rightarrow> bool" where
  "isControl c = (c \<le> 31 \<or> c = 127)"

definition eventHandler :: rx where
  "eventHandler =
     cat [Lit ''on'', Plus (CSet [ClsW]), Star (CSet [ClsS]), Lit ''='', Star (CSet [ClsS]),
          Plus (NSet [Ch CHR ''>'', ClsS])]"

definition sanitizeText :: "jsstring \<Rightarrow> jsstring" where
  "sanitizeText input =
     (let s1 = filter (\<lambda>c. \<not> isControl c) input;
          s2 = replaceAll (element ''script'') True None s1;
          s3 = replaceAll (element ''iframe'') True None s2;
          s4 = replaceAll (element ''object'') True None s3;
          s5 = replaceAll eventHandler True None s4;
          s6 = replaceAll (Lit ''javascript:'') True None s5;
          s7 = replaceAll (Lit ''vbscript:'') True None s6
      in trim s7)"

fun sanitizeInput :: "jsvalue \<Rightarrow> jsstring" where
  "sanitizeInput (JString input) = sanitizeText input"
| "sanitizeInput other = []"

text \<open>
  Modelled from the spec: the methods \<open>sanitizeString\<close> and \<open>isValidString\<close> of the
  input validator that the two validators import, whose module is missing. The Sanitizer of
  the specification strips control characters, removes complete script, iframe and object
  elements, strips \<open>on*=\<close> handlers and the \<open>javascript:\<close> and \<open>vbscript:\<close>
  schemes and trims white space, which is what \<open>sanitizeInput\<close> does; a valid string is
  one that is a string and not empty.
\<close>

definition specInputValidator :: inputValidator where
  "specInputValidator = \<lparr>sanitizeString = sanitizeInput, isValidString = (\<lambda>s. s \<noteq> [])\<rparr>"

section \<open>ICCardValidator\<close>

text \<open>
  A card format: its pattern and whether it carries a checksum. The \<open>length\<close> entry of
  the source is read by no method; \<open>description\<close>, \<open>issuer\<close> and \<open>regions\<close> are
  texts copied into the result and are left out.
\<close>

record cardConfig =
  cardPattern :: regex
  cardLength :: "nat list"
  checksum :: bool

record cardStats =
  validationCount :: nat
  validCards :: nat
  invalidCards :: nat
  suspiciousAttempts :: nat

record cardValidator =
  cardPatterns :: "cardConfig jsobject"
  cardStats :: cardStats

definition digitsOnly :: "nat \<Rightarrow> nat \<Rightarrow> rx" where
  "digitsOnly lo hi = cat [Bol, Rep lo (Some hi) (CSet [Rg CHR ''0'' CHR ''9'']), Eol]"

definition sixteen :: cardConfig where
  "sixteen = \<lparr>cardPattern = plain (digitsOnly 16 16), cardLength = [16], checksum = True\<rparr>"

definition initialCardPatterns :: "cardConfig jsobject" where
  "initialCardPatterns =
   [(js ''SUICA'', sixteen),
    (js ''ICOCA'', sixteen),
    (js ''MANACA'', sixteen),
    (js ''TOICA'', sixteen),
    (js ''SUGOCA'', sixteen),
    (js ''KITACA'', sixteen),
    (js ''HAYAKAKEN'', sixteen),
    (js ''NIMOCA'', sixteen),
    (js ''CORPORATE'', \<lparr>cardPattern = plain (digitsOnly 10 12), cardLength = [10, 11, 12], checksum = False\<rparr>),
    (js ''STUDENT'', \<lparr>cardPattern = plain (digitsOnly 8 14), cardLength = [8, 9, 10, 11, 12, 13, 14], checksum = False\<rparr>)]"

definition newCardValidator :: cardValidator where
  "newCardValidator =
     \<lparr>cardPatterns = initialCardPatterns,
      cardStats = \<lparr>validationCount = 0, validCards = 0, invalidCards = 0, suspiciousAttempts = 0\<rparr>\<rparr>"

subsection \<open>detectCardType\<close>

text \<open>
  The loop over \<open>Object.entries(this.cardPatterns)\<close>: the first entry whose pattern
  tests true is returned with its type name. The patterns tested are left in the table as
  \<open>test\<close> leaves them.
\<close>

fun detectEntries :: "cardConfig jsobject \<Rightarrow> jsstring \<Rightarrow> (jsstring \<times> cardConfig) option \<times> cardConfig jsobject" where
  "detectEntries [] cardNumber = (None, [])"
| "detectEntries ((type, config) # entries) cardNumber =
     (case test (cardPattern config) cardNumber of
        (True, re') \<Rightarrow> (Some (type, config\<lparr>cardPattern := re'\<rparr>), (type, config\<lparr>cardPattern := re'\<rparr>) # entries)
      | (False, re') \<Rightarrow>
          (case detectEntries entries cardNumber of
             (found, entries') \<Rightarrow> (found, (type, config\<lparr>cardPattern := re'\<rparr>) # entries')))"

definition detectCardType :: "cardValidator \<Rightarrow> jsstring \<Rightarrow> (jsstring \<times> cardConfig) option \<times> cardValidator" where
  "detectCardType v cardNumber =
     (case detectEntries (cardPatterns v) cardNumber of
        (found, entries') \<Rightarrow> (found, v\<lparr>cardPatterns := entries'\<rparr>))"

subsection \<open>validateChecksum\<close>

text \<open>
  \<open>Number\<close> of a one-character string: the digit's value, 0 for a white-space
  character, \<open>NaN\<close> (\<open>None\<close>) otherwise. A sum with \<open>NaN\<close> is \<open>NaN\<close>, and
  \<open>NaN % 10 === 0\<close> is false.
\<close>

definition toNumber :: "jschar \<Rightarrow> nat option" where
  "toNumber c = (if isDigit c then Some (c - 48) else if isSpace c then Some 0 else None)"

text \<open>
  The loop \<open>for (let i = digits.length - 1; i >= 0; i--)\<close>: the first argument is
  \<open>i + 1\<close>, then the running sum (\<open>acc\<close>) and the flag \<open>alternate\<close>.
\<close>

fun luhnLoop :: "nat \<Rightarrow> nat option list \<Rightarrow> nat option \<Rightarrow> bool \<Rightarrow> nat option" where
  "luhnLoop 0 ds acc alternate = acc"
| "luhnLoop (Suc i) ds acc alternate =
     (let digit = ds ! i;
          digit = (if alternate
                   then (let digit = map_option (\<lambda>d. d * 2) digit
                         in case digit of Some d \<Rightarrow> if d > 9 then Some (d - 9) else Some d | None \<Rightarrow> None)
                   else digit);
          acc = (case (acc, digit) of (Some a, Some d) \<Rightarrow> Some (a + d) | _ \<Rightarrow> None)
      in luhnLoop i ds acc (\<not> alternate))"

definition validateChecksum :: "jsstring \<Rightarrow> bool" where
  "validateChecksum cardNumber =
     (let ds = map toNumber cardNumber
      in case luhnLoop (length ds) ds (Some 0) False of
           Some acc \<Rightarrow> acc mod 10 = 0
         | None \<Rightarrow> False)"

subsection \<open>maskCardNumber\<close>

text \<open>
  \<open>'*'.repeat(n)\<close> throws a RangeError for a negative count, which is what
  \<open>cardNumber.length - 8\<close> is for a number of four to seven characters.
\<close>

definition repeatStar :: "int \<Rightarrow> jsError + jsstring" where
  "repeatStar n = (if n < 0 then Inl RangeError else Inr (replicate (nat n) 42))"

definition maskCardNumber :: "jsstring \<Rightarrow> jsError + jsstring" where
  "maskCardNumber cardNumber =
     (if cardNumber = [] \<or> length cardNumber < 4 then Inr (js ''****'')
      else
        (let firstFour = take 4 cardNumber;
             lastFour = drop (length cardNumber - 4) cardNumber
         in case repeatStar (int (length cardNumber) - 8) of
              Inl e \<Rightarrow> Inl e
            | Inr middle \<Rightarrow> Inr (firstFour @ middle @ lastFour)))"

subsection \<open>validateCardNumber\<close>

datatype cardError =
    INVALID_INPUT
  | INVALID_LENGTH nat                     \<comment> \<open>with \<open>actualLength\<close>\<close>
  | INVALID_CARD_FORMAT                    \<comment> \<open>\<open>INVALID_FORMAT\<close>\<close>
  | UNKNOWN_CARD_TYPE jsstring             \<comment> \<open>with the masked \<open>number\<close>\<close>
  | INVALID_CHECKSUM jsstring              \<comment> \<open>with \<open>cardType\<close>\<close>
  | CARD_VALIDATION_ERROR                  \<comment> \<open>\<open>VALIDATION_ERROR\<close>, from the \<open>catch\<close> branch\<close>

text \<open>\<open>CardValid cardType number rawNumber checksum\<close>, \<open>number\<close> being the masked one.\<close>

datatype cardResult = CardValid jsstring jsstring jsstring bool | CardInvalid cardError

definition incValidationCount :: "cardValidator \<Rightarrow> cardValidator" where
  "incValidationCount v = v\<lparr>cardStats := (cardStats v)\<lparr>validationCount := validationCount (cardStats v) + 1\<rparr>\<rparr>"

definition incValidCards :: "cardValidator \<Rightarrow> cardValidator" where
  "incValidCards v = v\<lparr>cardStats := (cardStats v)\<lparr>validCards := validCards (cardStats v) + 1\<rparr>\<rparr>"

definition incInvalidCards :: "cardValidator \<Rightarrow> cardValidator" where
  "incInvalidCards v = v\<lparr>cardStats := (cardStats v)\<lparr>invalidCards := invalidCards (cardStats v) + 1\<rparr>\<rparr>"

definition incSuspiciousAttempts :: "cardValidator \<Rightarrow> cardValidator" where
  "incSuspiciousAttempts v = v\<lparr>cardStats := (cardStats v)\<lparr>suspiciousAttempts := suspiciousAttempts (cardStats v) + 1\<rparr>\<rparr>"

text \<open>The \<open>catch\<close> branch: whatever was thrown, after the statistics updated so far.\<close>

definition caught :: "cardValidator \<Rightarrow> cardResult \<times> cardValidator" where
  "caught v = (CardInvalid CARD_VALIDATION_ERROR, incSuspiciousAttempts v)"

text \<open>
  In the branch of an invalid input, the arguments of the logger call are evaluated, and
  \<open>/[^0-9]/.test(cardNumber || '')\<close> converts its argument to a string: it throws for a
  value that cannot be converted, after \<open>suspiciousAttempts\<close> was incremented once.
\<close>

definition validateCardNumber :: "inputValidator \<Rightarrow> cardValidator \<Rightarrow> jsvalue \<Rightarrow> cardResult \<times> cardValidator" where
  "validateCardNumber iv v cardNumber =
     (let v0 = incValidationCount v;
          sanitizedNumber = sanitizeString iv cardNumber
      in
      if \<not> isValidString iv sanitizedNumber then
        (let v1 = incSuspiciousAttempts v0 in
         if cardNumber = JUnconvertible then caught v1 else (CardInvalid INVALID_INPUT, v1))
      else if length sanitizedNumber < 4 \<or> length sanitizedNumber > 20 then
        (CardInvalid (INVALID_LENGTH (length sanitizedNumber)), incInvalidCards v0)
      else if \<not> matches (cat [Bol, Plus (CSet [ClsD]), Eol]) False sanitizedNumber then
        (CardInvalid INVALID_CARD_FORMAT, incInvalidCards v0)
      else
        (case detectCardType v0 sanitizedNumber of
           (None, v1) \<Rightarrow>
             (let v2 = incInvalidCards v1 in
              case maskCardNumber sanitizedNumber of
                Inl e \<Rightarrow> caught v2
              | Inr masked \<Rightarrow> (CardInvalid (UNKNOWN_CARD_TYPE masked), v2))
         | (Some (type, config), v1) \<Rightarrow>
             (let checksumValid = (if checksum config then validateChecksum sanitizedNumber else True) in
              if \<not> checksumValid then (CardInvalid (INVALID_CHECKSUM type), incInvalidCards v1)
              else
                (let v2 = incValidCards v1 in
                 case maskCardNumber sanitizedNumber of
                   Inl e \<Rightarrow> caught v2
                 | Inr masked \<Rightarrow> (CardValid type masked sanitizedNumber checksumValid, v2)))))"

section \<open>Notions used to state the properties\<close>

text \<open>The type name that detectCardType reports, if any.\<close>

definition detectedType :: "cardValidator \<Rightarrow> jsstring \<Rightarrow> jsstring option" where
  "detectedType v cardNumber = map_option fst (fst (detectCardType v cardNumber))"

text \<open>The six patterns whose matches sanitizeInput deletes, in the order of the source.\<close>

definition removalPatterns :: "rx list" where
  "removalPatterns =
     [element ''script'', element ''iframe'', element ''object'', eventHandler,
      Lit ''javascript:'', Lit ''vbscript:'']"

text \<open>
  The standard Luhn check, following the words of the specification: of the digits read
  from the rightmost one, every second is doubled, 9 is subtracted from a doubled value
  that exceeds 9, all are summed, and the number is valid if and only if the sum is
  divisible by 10. \<open>luhnSum dbl ds\<close> sums the digits \<open>ds\<close>, given from the right, the
  first of them doubled when \<open>dbl\<close> holds.
\<close>

definition luhnDouble :: "nat \<Rightarrow> nat" where
  "luhnDouble d = (if 2 * d > 9 then 2 * d - 9 else 2 * d)"

fun luhnSum :: "bool \<Rightarrow> nat list \<Rightarrow> nat" where
  "luhnSum dbl [] = 0"
| "luhnSum dbl (d # ds) = (if dbl then luhnDouble d else d) + luhnSum (\<not> dbl) ds"

definition luhnStandard :: "nat list \<Rightarrow> bool" where
  "luhnStandard ds = (luhnSum False (rev ds) mod 10 = 0)"

text \<open>The values of the digits of a string of decimal digits.\<close>

definition digitValues :: "jsstring \<Rightarrow> nat list" where
  "digitValues s = map (\<lambda>c. c - 48) s"

text \<open>The violation kind that a scan reports, if any.\<close>

fun kindOf :: "securityCheck \<Rightarrow> violation option" where
  "kindOf Safe = None"
| "kindOf (Unsafe k p) = Some k"

text \<open>The statistics after one more report of the given kind.\<close>

fun countViolation :: "violation option \<Rightarrow> stats \<Rightarrow> stats" where
  "countViolation None st = st"
| "countViolation (Some SQL_INJECTION) st =
     st\<lparr>violationTypes := (violationTypes st)\<lparr>sqlInjection := sqlInjection (violationTypes st) + 1\<rparr>\<rparr>"
| "countViolation (Some OS_COMMAND_INJECTION) st =
     st\<lparr>violationTypes := (violationTypes st)\<lparr>osCommand := osCommand (violationTypes st) + 1\<rparr>\<rparr>"
| "countViolation (Some XSS) st =
     st\<lparr>violationTypes := (violationTypes st)\<lparr>xss := xss (violationTypes st) + 1\<rparr>\<rparr>"

text \<open>Whether some pattern of a list matches the string, whatever its \<open>lastIndex\<close>.\<close>

definition anyMatches :: "regex list \<Rightarrow> jsstring \<Rightarrow> bool" where
  "anyMatches res s = list_ex (\<lambda>re. matches (pat re) (ignoreCase re) s) res"

text \<open>
  The results of the field validator run on the entries of an object one after the other,
  the validator passing from each call to the next; and, of such a list of results, the
  failures and the sanitized values of the successes.
\<close>

fun runFields :: "inputValidator \<Rightarrow> dataValidator \<Rightarrow> jsvalue jsobject \<Rightarrow> fieldResult jsobject" where
  "runFields iv v [] = []"
| "runFields iv v ((fieldName, value) # entries) =
     (fieldName, fst (validateField iv v fieldName value False))
       # runFields iv (snd (validateField iv v fieldName value False)) entries"

fun failuresOf :: "fieldResult jsobject \<Rightarrow> objectError list" where
  "failuresOf [] = []"
| "failuresOf ((k, Invalid e) # rs) = FieldFailure k e # failuresOf rs"
| "failuresOf ((k, Valid x orig) # rs) = failuresOf rs"

fun successesOf :: "fieldResult jsobject \<Rightarrow> jsstring jsobject" where
  "successesOf [] = []"
| "successesOf ((k, Valid x orig) # rs) = (k, x) # successesOf rs"
| "successesOf ((k, Invalid e) # rs) = successesOf rs"

text \<open>The pattern check of a rule fails: the rule has a pattern, the value is not blank,
  and the pattern does not test true.\<close>

definition formatFails :: "rule \<Rightarrow> jsstring \<Rightarrow> bool" where
  "formatFails r s = (case pattern r of RegExpPattern re \<Rightarrow> trim s \<noteq> [] \<and> \<not> fst (test re s) | _ \<Rightarrow> False)"

text \<open>The pattern check of a rule throws: the pattern is no RegExp and the value is not blank.\<close>

definition patternThrows :: "rule \<Rightarrow> jsstring \<Rightarrow> bool" where
  "patternThrows r s = (pattern r = NotRegExp \<and> trim s \<noteq> [])"

section \<open>Evaluating the matcher on concrete input\<close>

text \<open>Unfolding rules for numerals, and the definitions that concrete evaluations unfold.\<close>

lemma greedy_numeral:
  "greedy (numeral k) f st =
     concat (map (greedy (pred_numeral k) f) (filter (\<lambda>st'. length (rest st') < length (rest st)) (f st))) @ [st]"
  by (simp add: numeral_eq_Suc)

lemma exactly_numeral: "exactly (numeral k) f st = concat (map (exactly (pred_numeral k) f) (f st))"
  by (simp add: numeral_eq_Suc)

lemmas rx_eval = js_def rest_def inSet_def chEq_def swapCase_def isWordChar_def isSpace_def isDigit_def
  isLineTerminator_def Star_def Plus_def Opt_def greedy_numeral exactly_numeral word_def element_def plain_def
  mkRegex_def test_def matches_def

section \<open>Anchored repetitions of a character class\<close>

lemma exactly_oneChar:
  "exactly n (oneChar P) (pv, cs, cp) =
     (if n \<le> length cs \<and> (\<forall>c\<in>set (take n cs). P c)
      then [(if n = 0 then pv else Some (cs ! (n - 1)), drop n cs, cp)] else [])"
proof (induction n arbitrary: pv cs)
  case 0
  show ?case by simp
next
  case (Suc n)
  show ?case
  proof (cases cs)
    case Nil
    then show ?thesis by simp
  next
    case (Cons c cs')
    then show ?thesis using Suc[of "Some c" cs'] by (auto simp: nth_Cons')
  qed
qed

lemma greedy_oneChar_end:
  "(\<exists>st\<in>set (greedy k (oneChar P) (pv, cs, cp)). rest st = []) \<longleftrightarrow> (length cs \<le> k \<and> (\<forall>c\<in>set cs. P c))"
proof (induction k arbitrary: pv cs)
  case 0
  show ?case by (auto simp: rest_def)
next
  case (Suc k)
  show ?case
  proof (cases cs)
    case Nil
    then show ?thesis by (simp add: rest_def)
  next
    case (Cons c cs')
    then show ?thesis using Suc[of "Some c" cs'] by (auto simp: rest_def)
  qed
qed

lemma search_Bol_Some: "search (Seq Bol r) ic (Some a) cs = None"
  by (induction cs arbitrary: a) auto

lemma matches_Bol: "matches (Seq Bol r) ic s \<longleftrightarrow> m r ic (None, s, []) \<noteq> []"
  by (cases s) (auto simp: matches_def search_Bol_Some split: list.splits)

lemma m_Seq_Eol: "m (Seq r Eol) ic st \<noteq> [] \<longleftrightarrow> (\<exists>st'\<in>set (m r ic st). rest st' = [])"
  by (induction "m r ic st") (auto simp: rest_def)

lemma m_CSet_eta: "m (CSet items) ic = oneChar (inSet ic items)"
  by (rule ext) simp

lemma m_Rep_class_end:
  "(\<exists>st'\<in>set (m (Rep lo hi (CSet items)) ic (pv, s, cp)). rest st' = []) \<longleftrightarrow>
     (lo \<le> length s \<and> (case hi of None \<Rightarrow> True | Some h \<Rightarrow> length s - lo \<le> h - lo) \<and> (\<forall>c\<in>set s. inSet ic items c))"
proof -
  define P where "P = inSet ic items"
  define A where "A \<longleftrightarrow> lo \<le> length s \<and> (\<forall>c\<in>set (take lo s). P c)"
  define st1 where "st1 = (if lo = 0 then pv else Some (s ! (lo - 1)), drop lo s, cp)"
  define bound where "bound = (case hi of None \<Rightarrow> length (drop lo s) | Some h \<Rightarrow> h - lo)"
  have ex: "exactly lo (oneChar P) (pv, s, cp) = (if A then [st1] else [])"
    unfolding A_def st1_def by (rule exactly_oneChar)
  have rs: "rest st1 = drop lo s"
    by (simp add: st1_def rest_def)
  have unfold: "m (Rep lo hi (CSet items)) ic (pv, s, cp) =
      (if A then greedy bound (oneChar P) st1 else [])"
    by (cases hi) (simp_all add: m_CSet_eta P_def[symmetric] ex rs bound_def)
  have all: "(\<forall>c\<in>set s. P c) \<longleftrightarrow> (\<forall>c\<in>set (take lo s). P c) \<and> (\<forall>c\<in>set (drop lo s). P c)"
    by (metis Un_iff append_take_drop_id set_append)
  have g: "(\<exists>st'\<in>set (greedy bound (oneChar P) st1). rest st' = []) \<longleftrightarrow>
      (length (drop lo s) \<le> bound \<and> (\<forall>c\<in>set (drop lo s). P c))"
    unfolding st1_def by (rule greedy_oneChar_end)
  show ?thesis
  proof (cases A)
    case False
    then show ?thesis unfolding unfold P_def[symmetric] using all by (auto simp: A_def)
  next
    case True
    then show ?thesis unfolding unfold P_def[symmetric] using g all
      by (cases hi) (auto simp: A_def bound_def)
  qed
qed

lemma matches_digitsOnly:
  "matches (digitsOnly lo hi) False s \<longleftrightarrow> (lo \<le> length s \<and> length s - lo \<le> hi - lo \<and> (\<forall>c\<in>set s. isDigit c))"
proof -
  have "inSet False [Rg CHR ''0'' CHR ''9''] c = isDigit c" for c
    by (simp add: inSet_def isDigit_def)
  then show ?thesis
    unfolding digitsOnly_def cat.simps matches_Bol m_Seq_Eol m_Rep_class_end by simp
qed

lemma matches_allDigits:
  "matches (cat [Bol, Plus (CSet [ClsD]), Eol]) False s \<longleftrightarrow> (s \<noteq> [] \<and> (\<forall>c\<in>set s. isDigit c))"
proof -
  have "inSet False [ClsD] c = isDigit c" for c
    by (simp add: inSet_def)
  then show ?thesis
    unfolding Plus_def cat.simps matches_Bol m_Seq_Eol m_Rep_class_end by (cases s) auto
qed

lemma test_plain: "\<not> global re \<Longrightarrow> test re s = (matches (pat re) (ignoreCase re) s, re)"
  by (auto simp: test_def matches_def split: option.splits)

section \<open>Card-type detection\<close>

lemma detectEntries_initial:
  "detectEntries initialCardPatterns s =
     ((if matches (digitsOnly 16 16) False s then Some (js ''SUICA'', sixteen)
       else if matches (digitsOnly 10 12) False s
         then Some (js ''CORPORATE'', \<lparr>cardPattern = plain (digitsOnly 10 12), cardLength = [10, 11, 12], checksum = False\<rparr>)
       else if matches (digitsOnly 8 14) False s
         then Some (js ''STUDENT'', \<lparr>cardPattern = plain (digitsOnly 8 14), cardLength = [8, 9, 10, 11, 12, 13, 14], checksum = False\<rparr>)
       else None),
      initialCardPatterns)"
  by (simp add: initialCardPatterns_def sixteen_def plain_def mkRegex_def test_plain)

lemma js_type_names:
  "js ''SUICA'' \<noteq> js ''ICOCA''" "js ''SUICA'' \<noteq> js ''MANACA''" "js ''SUICA'' \<noteq> js ''TOICA''"
  "js ''SUICA'' \<noteq> js ''SUGOCA''" "js ''SUICA'' \<noteq> js ''KITACA''" "js ''SUICA'' \<noteq> js ''HAYAKAKEN''"
  "js ''SUICA'' \<noteq> js ''NIMOCA''"
  "js ''CORPORATE'' \<noteq> js ''ICOCA''" "js ''CORPORATE'' \<noteq> js ''MANACA''" "js ''CORPORATE'' \<noteq> js ''TOICA''"
  "js ''CORPORATE'' \<noteq> js ''SUGOCA''" "js ''CORPORATE'' \<noteq> js ''KITACA''" "js ''CORPORATE'' \<noteq> js ''HAYAKAKEN''"
  "js ''CORPORATE'' \<noteq> js ''NIMOCA''"
  "js ''STUDENT'' \<noteq> js ''ICOCA''" "js ''STUDENT'' \<noteq> js ''MANACA''" "js ''STUDENT'' \<noteq> js ''TOICA''"
  "js ''STUDENT'' \<noteq> js ''SUGOCA''" "js ''STUDENT'' \<noteq> js ''KITACA''" "js ''STUDENT'' \<noteq> js ''HAYAKAKEN''"
  "js ''STUDENT'' \<noteq> js ''NIMOCA''"
  by (simp_all add: js_def)

text \<open>
  Claim C10. With the built-in table, detectCardType reports SUICA, CORPORATE or STUDENT, or
  nothing: never ICOCA, MANACA, TOICA, SUGOCA, KITACA, HAYAKAKEN or NIMOCA, whose pattern is
  the one of SUICA, enumerated first. Every string of sixteen decimal digits is reported as
  SUICA, and the detection leaves the table as it was.
\<close>

theorem detectCardType_reports_three_types:
  assumes "cardPatterns v = initialCardPatterns"
  shows "detectedType v s \<in> {None, Some (js ''SUICA''), Some (js ''CORPORATE''), Some (js ''STUDENT'')}
       \<and> detectedType v s \<notin> Some ` js ` {''ICOCA'', ''MANACA'', ''TOICA'', ''SUGOCA'', ''KITACA'', ''HAYAKAKEN'', ''NIMOCA''}
       \<and> (length s = 16 \<and> (\<forall>c\<in>set s. isDigit c) \<longrightarrow> detectedType v s = Some (js ''SUICA''))
       \<and> cardPatterns (snd (detectCardType v s)) = initialCardPatterns"
  using assms
  by (simp add: detectedType_def detectCardType_def detectEntries_initial matches_digitsOnly js_type_names)

theorem detectCardType_reports_three_types_witness:
  "cardPatterns newCardValidator = initialCardPatterns
   \<and> length (js ''1234567890123456'') = 16 \<and> list_all isDigit (js ''1234567890123456'')
   \<and> detectedType newCardValidator (js ''1234567890123456'') = Some (js ''SUICA'')
   \<and> detectedType newCardValidator (js ''1234567890123456'') \<noteq> Some (js ''MANACA'')"
proof -
  have h: "cardPatterns newCardValidator = initialCardPatterns"
    by (simp add: newCardValidator_def)
  have d: "length (js ''1234567890123456'') = 16 \<and> (\<forall>c\<in>set (js ''1234567890123456''). isDigit c)"
    by (simp add: js_def isDigit_def)
  from detectCardType_reports_three_types[OF h, of "js ''1234567890123456''"] d h
  show ?thesis by (simp add: js_type_names list_all_iff)
qed

section \<open>Replacement and trimming\<close>

lemma set_replaceAll: "set (replaceAll r ic pv xs) \<subseteq> set xs"
proof (induction r ic pv xs rule: replaceAll.induct)
  case (1 r ic pv)
  show ?case by simp
next
  case (2 r ic pv c cs)
  show ?case
  proof (cases "m r ic (pv, c # cs, [])")
    case Nil
    then show ?thesis using 2(1) by auto
  next
    case (Cons st sts)
    define len where "len = Suc (length cs) - length (rest st)"
    show ?thesis
    proof (cases "len = 0")
      case True
      then show ?thesis using Cons 2(2)[OF Cons len_def] by (auto simp: len_def)
    next
      case False
      have "set (replaceAll r ic (Some ((c # cs) ! (len - 1))) (drop len (c # cs))) \<subseteq> set (drop len (c # cs))"
        using 2(3)[OF Cons len_def False] .
      also have "\<dots> \<subseteq> set (c # cs)" by (rule set_drop_subset)
      finally show ?thesis using Cons False by (simp add: len_def Let_def)
    qed
  qed
qed

lemma replaceAll_noMatch: "search r ic pv xs = None \<Longrightarrow> replaceAll r ic pv xs = xs"
proof (induction xs arbitrary: pv)
  case Nil
  show ?case by simp
next
  case (Cons c cs)
  from Cons.prems have a: "m r ic (pv, c # cs, []) = []" and b: "search r ic (Some c) cs = None"
    by (auto split: list.splits)
  show ?case using a Cons.IH[OF b] by simp
qed

lemma search_first:
  assumes "\<And>pv t. m r ic (pv, t, []) \<noteq> [] \<Longrightarrow> \<exists>c u. t = c # u \<and> P c"
    and "\<forall>c\<in>set s. \<not> P c"
  shows "search r ic pv s = None"
  using assms(2)
proof (induction s arbitrary: pv)
  case Nil
  have "m r ic (pv, [], []) = []" using assms(1)[of pv "[]"] by auto
  then show ?case by simp
next
  case (Cons c cs)
  have "m r ic (pv, c # cs, []) = []" using assms(1)[of pv "c # cs"] Cons.prems by auto
  moreover have "search r ic (Some c) cs = None" using Cons by simp
  ultimately show ?case by simp
qed

lemma lit_first: "lit ic (p # ps) (pv, t, cp) \<noteq> [] \<Longrightarrow> \<exists>c u. t = c # u \<and> chEq ic p c"
  by (cases t) (auto split: if_splits)

lemma m_Lit_first: "m (Lit (a # as)) ic (pv, t, cp) \<noteq> [] \<Longrightarrow> \<exists>c u. t = c # u \<and> chEq ic (of_char a) c"
  using lit_first[of ic "of_char a" "js as" pv t cp] by (simp add: js_def)

lemma m_Seq_Lit_first:
  "m (Seq (Lit (a # as)) r) ic (pv, t, cp) \<noteq> [] \<Longrightarrow> \<exists>c u. t = c # u \<and> chEq ic (of_char a) c"
proof -
  assume "m (Seq (Lit (a # as)) r) ic (pv, t, cp) \<noteq> []"
  then have "m (Lit (a # as)) ic (pv, t, cp) \<noteq> []" by auto
  then show ?thesis by (rule m_Lit_first)
qed

lemma m_element_first: "m (element tag) ic (pv, t, cp) \<noteq> [] \<Longrightarrow> \<exists>c u. t = c # u \<and> chEq ic 60 c"
proof -
  assume a: "m (element tag) ic (pv, t, cp) \<noteq> []"
  obtain R where e: "element tag = Seq (Lit (CHR ''<'' # tag)) R" by (simp add: element_def)
  from a have "m (Seq (Lit (CHR ''<'' # tag)) R) ic (pv, t, cp) \<noteq> []" unfolding e .
  from m_Seq_Lit_first[OF this] show ?thesis by simp
qed

lemma m_eventHandler_first: "m eventHandler ic (pv, t, cp) \<noteq> [] \<Longrightarrow> \<exists>c u. t = c # u \<and> chEq ic 111 c"
proof -
  assume a: "m eventHandler ic (pv, t, cp) \<noteq> []"
  obtain R where e: "eventHandler = Seq (Lit (CHR ''o'' # ''n'')) R" by (simp add: eventHandler_def)
  from a have "m (Seq (Lit (CHR ''o'' # ''n'')) R) ic (pv, t, cp) \<noteq> []" unfolding e .
  from m_Seq_Lit_first[OF this] show ?thesis by simp
qed

lemma trim_noSpace: "\<forall>c\<in>set s. \<not> isSpace c \<Longrightarrow> trim s = s"
proof -
  assume a: "\<forall>c\<in>set s. \<not> isSpace c"
  have 1: "dropWhile isSpace s = s" using a by (cases s) simp_all
  have "\<forall>c\<in>set (rev s). \<not> isSpace c" using a by simp
  then have 2: "dropWhile isSpace (rev s) = rev s" by (cases "rev s") simp_all
  show ?thesis unfolding trim_def 1 2 by simp
qed

lemma trim_trim: "trim (trim x) = trim x"
proof -
  define y where "y = dropWhile isSpace x"
  define z where "z = rev (dropWhile isSpace (rev y))"
  have z: "trim x = z" by (simp add: trim_def y_def z_def)
  have dz: "dropWhile isSpace z = z"
  proof (cases y)
    case Nil
    then show ?thesis by (simp add: z_def)
  next
    case (Cons a y')
    have na: "\<not> isSpace a" using Cons unfolding y_def by (metis hd_dropWhile list.sel(1) list.distinct(1))
    have "\<exists>w. dropWhile isSpace (rev y) = w @ [a]"
      using Cons na by (auto simp: dropWhile_append)
    then obtain w where w: "dropWhile isSpace (rev y) = w @ [a]" by blast
    show ?thesis using na by (simp add: z_def w)
  qed
  have "trim z = rev (dropWhile isSpace (rev z))" by (simp add: trim_def dz)
  also have "rev z = dropWhile isSpace (rev y)" by (simp add: z_def)
  also have "dropWhile isSpace (dropWhile isSpace (rev y)) = dropWhile isSpace (rev y)" by simp
  also have "rev (dropWhile isSpace (rev y)) = z" by (simp add: z_def)
  finally show ?thesis using z by simp
qed

lemma set_trim: "set (trim s) \<subseteq> set s"
  by (auto simp: trim_def dest!: set_dropWhileD)

section \<open>Sanitization\<close>

lemma sanitizeText_fixed:
  assumes "\<forall>c\<in>set t. \<not> isControl c" and "trim t = t"
    and "\<forall>r\<in>set removalPatterns. \<not> matches r True t"
  shows "sanitizeText t = t"
proof -
  have f: "filter (\<lambda>c. \<not> isControl c) t = t" using assms(1) by (simp add: filter_id_conv)
  have r: "replaceAll r True None t = t" if "r \<in> set removalPatterns" for r
  proof -
    have "\<not> matches r True t" using assms(3) that by blast
    then have "search r True None t = None" unfolding matches_def by blast
    then show ?thesis by (rule replaceAll_noMatch)
  qed
  have r1: "replaceAll (element ''script'') True None t = t" by (rule r) (simp add: removalPatterns_def)
  have r2: "replaceAll (element ''iframe'') True None t = t" by (rule r) (simp add: removalPatterns_def)
  have r3: "replaceAll (element ''object'') True None t = t" by (rule r) (simp add: removalPatterns_def)
  have r4: "replaceAll eventHandler True None t = t" by (rule r) (simp add: removalPatterns_def)
  have r5: "replaceAll (Lit ''javascript:'') True None t = t" by (rule r) (simp add: removalPatterns_def)
  have r6: "replaceAll (Lit ''vbscript:'') True None t = t" by (rule r) (simp add: removalPatterns_def)
  show ?thesis unfolding sanitizeText_def Let_def f r1 r2 r3 r4 r5 r6 by (rule assms(2))
qed

lemma sanitizeText_noControl: "\<forall>c\<in>set (sanitizeText s). \<not> isControl c"
proof -
  have "set (sanitizeText s) \<subseteq> set (filter (\<lambda>c. \<not> isControl c) s)"
    unfolding sanitizeText_def Let_def
    by (intro order_trans[OF set_trim] order_trans[OF set_replaceAll] order_refl)
  then show ?thesis by auto
qed

lemma sanitizeText_trimmed: "trim (sanitizeText s) = sanitizeText s"
  by (simp add: sanitizeText_def Let_def trim_trim)

lemma sanitizeText_digits:
  assumes "\<forall>c\<in>set s. isDigit c"
  shows "sanitizeText s = s"
proof (rule sanitizeText_fixed)
  show "\<forall>c\<in>set s. \<not> isControl c" using assms by (auto simp: isDigit_def isControl_def)
  have "\<forall>c\<in>set s. \<not> isSpace c" using assms by (auto simp: isDigit_def isSpace_def)
  then show "trim s = s" by (rule trim_noSpace)
  have n60: "\<forall>c\<in>set s. \<not> chEq True 60 c" using assms by (auto simp: isDigit_def chEq_def swapCase_def)
  have n111: "\<forall>c\<in>set s. \<not> chEq True 111 c" using assms by (auto simp: isDigit_def chEq_def swapCase_def)
  have n106: "\<forall>c\<in>set s. \<not> chEq True (of_char CHR ''j'') c" using assms by (auto simp: isDigit_def chEq_def swapCase_def)
  have n118: "\<forall>c\<in>set s. \<not> chEq True (of_char CHR ''v'') c" using assms by (auto simp: isDigit_def chEq_def swapCase_def)
  have e: "\<not> matches (element tag) True s" for tag
    unfolding matches_def using search_first[of "element tag" True "chEq True 60" s None, OF m_element_first n60] by simp
  have h: "\<not> matches eventHandler True s"
    unfolding matches_def using search_first[of eventHandler True "chEq True 111" s None, OF m_eventHandler_first n111] by simp
  have j: "\<not> matches (Lit ''javascript:'') True s"
    unfolding matches_def
    using search_first[of "Lit ''javascript:''" True "chEq True (of_char CHR ''j'')" s None, OF m_Lit_first n106] by simp
  have v: "\<not> matches (Lit ''vbscript:'') True s"
    unfolding matches_def
    using search_first[of "Lit ''vbscript:''" True "chEq True (of_char CHR ''v'')" s None, OF m_Lit_first n118] by simp
  show "\<forall>r\<in>set removalPatterns. \<not> matches r True s"
    using e h j v by (simp add: removalPatterns_def)
qed

lemma js_javajava: "js ''javajavascript:script:'' = [106, 97, 118, 97, 106, 97, 118, 97, 115, 99, 114, 105, 112, 116, 58, 115, 99, 114, 105, 112, 116, 58]"
  by (simp add: js_def)

lemma js_javascript: "js ''javascript:'' = [106, 97, 118, 97, 115, 99, 114, 105, 112, 116, 58]"
  by (simp add: js_def)

lemma sanitize_javajava_1: "replaceAll (element tag) True None [106, 97, 118, 97, 106, 97, 118, 97, 115, 99, 114, 105, 112, 116, 58, 115, 99, 114, 105, 112, 116, 58]
    = [106, 97, 118, 97, 106, 97, 118, 97, 115, 99, 114, 105, 112, 116, 58, 115, 99, 114, 105, 112, 116, 58]"
  by (simp add: rx_eval)

lemma sanitize_javajava_2: "replaceAll eventHandler True None [106, 97, 118, 97, 106, 97, 118, 97, 115, 99, 114, 105, 112, 116, 58, 115, 99, 114, 105, 112, 116, 58]
    = [106, 97, 118, 97, 106, 97, 118, 97, 115, 99, 114, 105, 112, 116, 58, 115, 99, 114, 105, 112, 116, 58]"
  by (simp add: rx_eval eventHandler_def)

lemma sanitize_javajava_3: "replaceAll (Lit ''javascript:'') True None [106, 97, 118, 97, 106, 97, 118, 97, 115, 99, 114, 105, 112, 116, 58, 115, 99, 114, 105, 112, 116, 58]
    = [106, 97, 118, 97, 115, 99, 114, 105, 112, 116, 58]"
  by (simp add: rx_eval)

lemma sanitize_javajava_4: "replaceAll (Lit ''vbscript:'') True None [106, 97, 118, 97, 115, 99, 114, 105, 112, 116, 58] = [106, 97, 118, 97, 115, 99, 114, 105, 112, 116, 58]"
  by (simp add: rx_eval)

lemma sanitize_javascript_1: "replaceAll (element tag) True None [106, 97, 118, 97, 115, 99, 114, 105, 112, 116, 58] = [106, 97, 118, 97, 115, 99, 114, 105, 112, 116, 58]"
  by (simp add: rx_eval)

lemma sanitize_javascript_2: "replaceAll eventHandler True None [106, 97, 118, 97, 115, 99, 114, 105, 112, 116, 58] = [106, 97, 118, 97, 115, 99, 114, 105, 112, 116, 58]"
  by (simp add: rx_eval eventHandler_def)

lemma sanitize_javascript_3: "replaceAll (Lit ''javascript:'') True None [106, 97, 118, 97, 115, 99, 114, 105, 112, 116, 58] = []"
  by (simp add: rx_eval)

lemma sanitize_javajava: "sanitizeText (js ''javajavascript:script:'') = js ''javascript:''"
proof -
  have f: "filter (\<lambda>c. \<not> isControl c) [106, 97, 118, 97, 106, 97, 118, 97, 115, 99, 114, 105, 112, 116, 58, 115, 99, 114, 105, 112, 116, 58]
      = [106, 97, 118, 97, 106, 97, 118, 97, 115, 99, 114, 105, 112, 116, 58, 115, 99, 114, 105, 112, 116, 58]"
    by (simp add: isControl_def)
  show ?thesis
    unfolding sanitizeText_def Let_def js_javajava js_javascript f
      sanitize_javajava_1 sanitize_javajava_2 sanitize_javajava_3 sanitize_javajava_4
    by (simp add: trim_def isSpace_def)
qed

lemma replaceAll_Nil: "replaceAll r ic pv [] = []"
  by simp

lemma sanitize_javascript: "sanitizeText (js ''javascript:'') = []"
proof -
  have f: "filter (\<lambda>c. \<not> isControl c) [106, 97, 118, 97, 115, 99, 114, 105, 112, 116, 58]
      = [106, 97, 118, 97, 115, 99, 114, 105, 112, 116, 58]"
    by (simp add: isControl_def)
  show ?thesis
    unfolding sanitizeText_def Let_def js_javascript f
      sanitize_javascript_1 sanitize_javascript_2 sanitize_javascript_3 replaceAll_Nil
    by (simp add: trim_def)
qed

text \<open>
  Claim C8 fails on the code. Every pattern is deleted in one pass, from left to right, and
  the result of a deletion is not scanned again: deleting the inner \<open>javascript:\<close> of
  \<open>javajavascript:script:\<close> joins the text around it to a new \<open>javascript:\<close>,
  which is returned. A second call deletes it, so the sanitizer is not idempotent, and the
  value it returns still holds the scheme it is written to remove.
\<close>

theorem sanitizeInput_leaves_scheme:
  "sanitizeInput (JString (js ''javajavascript:script:'')) = js ''javascript:''
   \<and> sanitizeInput (JString (sanitizeInput (JString (js ''javajavascript:script:'')))) = []
   \<and> sanitizeInput (JString (sanitizeInput (JString (js ''javajavascript:script:''))))
       \<noteq> sanitizeInput (JString (js ''javajavascript:script:''))"
  unfolding sanitizeInput.simps sanitize_javajava sanitize_javascript by (simp add: js_javascript)
text \<open>
  Where a second pass changes nothing: a sanitized value that contains no match of any of
  the six patterns that sanitizeInput deletes (a complete script, iframe or object element,
  an event-handler attribute, \<open>javascript:\<close>, \<open>vbscript:\<close>) is returned as it is.
\<close>

lemma sanitizeInput_fixed_when_clean:
  assumes "\<forall>r\<in>set removalPatterns. \<not> matches r True (sanitizeInput (JString s))"
  shows "sanitizeInput (JString (sanitizeInput (JString s))) = sanitizeInput (JString s)"
  using assms sanitizeText_fixed[OF sanitizeText_noControl sanitizeText_trimmed, of s] by simp
lemma js_tanaka: "js '' <b>Tanaka</b> '' = [32, 60, 98, 62, 84, 97, 110, 97, 107, 97, 60, 47, 98, 62, 32]"
  by (simp add: js_def)

lemma js_tanaka_trimmed: "js ''<b>Tanaka</b>'' = [60, 98, 62, 84, 97, 110, 97, 107, 97, 60, 47, 98, 62]"
  by (simp add: js_def)

lemma tanaka_script: "search (element ''script'') True None [32, 60, 98, 62, 84, 97, 110, 97, 107, 97, 60, 47, 98, 62, 32] = None"
  by (simp add: rx_eval)

lemma tanaka_iframe: "search (element ''iframe'') True None [32, 60, 98, 62, 84, 97, 110, 97, 107, 97, 60, 47, 98, 62, 32] = None"
  by (simp add: rx_eval)

lemma tanaka_object: "search (element ''object'') True None [32, 60, 98, 62, 84, 97, 110, 97, 107, 97, 60, 47, 98, 62, 32] = None"
  by (simp add: rx_eval)

lemma tanaka_handler: "search eventHandler True None [32, 60, 98, 62, 84, 97, 110, 97, 107, 97, 60, 47, 98, 62, 32] = None"
  by (simp add: rx_eval eventHandler_def)

lemma tanaka_javascript: "search (Lit ''javascript:'') True None [32, 60, 98, 62, 84, 97, 110, 97, 107, 97, 60, 47, 98, 62, 32] = None"
  by (simp add: rx_eval)

lemma tanaka_vbscript: "search (Lit ''vbscript:'') True None [32, 60, 98, 62, 84, 97, 110, 97, 107, 97, 60, 47, 98, 62, 32] = None"
  by (simp add: rx_eval)

lemma sanitize_tanaka: "sanitizeText (js '' <b>Tanaka</b> '') = js ''<b>Tanaka</b>''"
proof -
  have f: "filter (\<lambda>c. \<not> isControl c) [32, 60, 98, 62, 84, 97, 110, 97, 107, 97, 60, 47, 98, 62, 32]
      = [32, 60, 98, 62, 84, 97, 110, 97, 107, 97, 60, 47, 98, 62, 32]"
    by (simp add: isControl_def)
  show ?thesis
    unfolding sanitizeText_def Let_def js_tanaka js_tanaka_trimmed f
      replaceAll_noMatch[OF tanaka_script] replaceAll_noMatch[OF tanaka_iframe]
      replaceAll_noMatch[OF tanaka_object] replaceAll_noMatch[OF tanaka_handler]
      replaceAll_noMatch[OF tanaka_javascript] replaceAll_noMatch[OF tanaka_vbscript]
    by (simp add: trim_def isSpace_def)
qed

lemma tanaka_clean_script: "\<not> matches (element ''script'') True [60, 98, 62, 84, 97, 110, 97, 107, 97, 60, 47, 98, 62]"
  by (simp add: rx_eval)

lemma tanaka_clean_iframe: "\<not> matches (element ''iframe'') True [60, 98, 62, 84, 97, 110, 97, 107, 97, 60, 47, 98, 62]"
  by (simp add: rx_eval)

lemma tanaka_clean_object: "\<not> matches (element ''object'') True [60, 98, 62, 84, 97, 110, 97, 107, 97, 60, 47, 98, 62]"
  by (simp add: rx_eval)

lemma tanaka_clean_handler: "\<not> matches eventHandler True [60, 98, 62, 84, 97, 110, 97, 107, 97, 60, 47, 98, 62]"
  by (simp add: rx_eval eventHandler_def)

lemma tanaka_clean_javascript: "\<not> matches (Lit ''javascript:'') True [60, 98, 62, 84, 97, 110, 97, 107, 97, 60, 47, 98, 62]"
  by (simp add: rx_eval)

lemma tanaka_clean_vbscript: "\<not> matches (Lit ''vbscript:'') True [60, 98, 62, 84, 97, 110, 97, 107, 97, 60, 47, 98, 62]"
  by (simp add: rx_eval)

lemma tanaka_clean: "\<forall>r\<in>set removalPatterns. \<not> matches r True (sanitizeInput (JString (js '' <b>Tanaka</b> '')))"
  unfolding sanitizeInput.simps sanitize_tanaka js_tanaka_trimmed removalPatterns_def
  using tanaka_clean_script tanaka_clean_iframe tanaka_clean_object tanaka_clean_handler
    tanaka_clean_javascript tanaka_clean_vbscript
  by simp

lemma sanitizeInput_fixed_tanaka:
  "sanitizeInput (JString (js '' <b>Tanaka</b> '')) = js ''<b>Tanaka</b>''
   \<and> sanitizeInput (JString (sanitizeInput (JString (js '' <b>Tanaka</b> ''))))
       = sanitizeInput (JString (js '' <b>Tanaka</b> ''))"
  using sanitizeInput_fixed_when_clean[OF tanaka_clean] sanitize_tanaka
  by simp
section \<open>The checksum and the mask\<close>

lemma luhnDouble_le: "d \<le> 9 \<Longrightarrow> luhnDouble d \<le> 9"
  unfolding luhnDouble_def by (simp split: if_splits; presburger)

lemma luhnDouble_inj: "a \<le> 9 \<Longrightarrow> b \<le> 9 \<Longrightarrow> luhnDouble a = luhnDouble b \<Longrightarrow> a = b"
  unfolding luhnDouble_def by (simp split: if_splits; presburger)

lemma toNumber_digits: "\<forall>c\<in>set s. isDigit c \<Longrightarrow> map toNumber s = map Some (digitValues s)"
  by (induction s) (simp_all add: toNumber_def digitValues_def)

lemma luhnLoop_sum:
  "k \<le> length vs \<Longrightarrow> luhnLoop k (map Some vs) (Some a) alt = Some (a + luhnSum alt (rev (take k vs)))"
proof (induction k arbitrary: a alt)
  case 0
  show ?case by simp
next
  case (Suc k)
  then have k: "k < length vs" and k': "k \<le> length vs" by simp_all
  have t: "rev (take (Suc k) vs) = vs ! k # rev (take k vs)"
    using k by (simp add: take_Suc_conv_app_nth)
  show ?case
    using Suc.IH[OF k'] k unfolding t by (simp add: luhnDouble_def Let_def ac_simps)
qed

lemma validateChecksum_luhnStandard:
  "\<forall>c\<in>set s. isDigit c \<Longrightarrow> validateChecksum s = luhnStandard (digitValues s)"
  using luhnLoop_sum[of "length (digitValues s)" "digitValues s" 0 False]
  by (simp add: validateChecksum_def luhnStandard_def toNumber_digits Let_def)

lemma luhnSum_update:
  "j < length xs \<Longrightarrow>
     luhnSum b (xs[j := y]) + (if b \<noteq> odd j then luhnDouble (xs ! j) else xs ! j)
       = luhnSum b xs + (if b \<noteq> odd j then luhnDouble y else y)"
proof (induction xs arbitrary: b j)
  case Nil
  then show ?case by simp
next
  case (Cons x xs)
  show ?case
  proof (cases j)
    case 0
    then show ?thesis by simp
  next
    case (Suc j')
    then have "j' < length xs" using Cons.prems by simp
    from Cons.IH[OF this, of "\<not> b"] show ?thesis using Suc by auto
  qed
qed

lemma luhn_single_digit:
  assumes "luhnStandard vs" and "i < length vs" and "vs ! i \<le> 9" and "d \<le> 9" and "d \<noteq> vs ! i"
  shows "\<not> luhnStandard (vs[i := d])"
proof -
  define j where "j = length vs - i - 1"
  have j: "j < length (rev vs)" using assms(2) by (simp add: j_def)
  have r: "rev (vs[i := d]) = (rev vs)[j := d]" using assms(2) by (simp add: rev_update j_def)
  have old: "rev vs ! j = vs ! i" using assms(2) by (simp add: rev_nth j_def)
  define cold where "cold = (if False \<noteq> odd j then luhnDouble (vs ! i) else vs ! i)"
  define cnew where "cnew = (if False \<noteq> odd j then luhnDouble d else d)"
  have eq: "luhnSum False (rev (vs[i := d])) + cold = luhnSum False (rev vs) + cnew"
    unfolding r cold_def cnew_def using luhnSum_update[OF j, of False d] old by (auto split: if_splits)
  have ne: "cold \<noteq> cnew"
    unfolding cold_def cnew_def using assms(3,4,5) luhnDouble_inj[of "vs ! i" d] by auto
  have le: "cold \<le> 9" "cnew \<le> 9"
    unfolding cold_def cnew_def using assms(3,4) by (auto intro: luhnDouble_le)
  have z: "luhnSum False (rev vs) mod 10 = 0" using assms(1) by (simp add: luhnStandard_def)
  have "luhnSum False (rev (vs[i := d])) mod 10 \<noteq> 0"
    using eq ne le z by presburger
  then show ?thesis by (simp add: luhnStandard_def)
qed

lemma validateChecksum_single_digit:
  assumes "\<forall>c\<in>set s. isDigit c" and "validateChecksum s" and "i < length s" and "isDigit d" and "d \<noteq> s ! i"
  shows "\<not> validateChecksum (s[i := d])"
proof -
  have si: "isDigit (s ! i)" using assms(1,3) by simp
  have d': "\<forall>c\<in>set (s[i := d]). isDigit c"
    using assms(1,4) by (auto dest!: set_update_subset_insert[THEN subsetD])
  have u: "digitValues (s[i := d]) = (digitValues s)[i := d - 48]"
    by (simp add: digitValues_def map_update)
  have "\<not> luhnStandard ((digitValues s)[i := d - 48])"
  proof (rule luhn_single_digit)
    show "luhnStandard (digitValues s)" using assms(1,2) by (simp add: validateChecksum_luhnStandard)
    show "i < length (digitValues s)" using assms(3) by (simp add: digitValues_def)
    show "digitValues s ! i \<le> 9" using si assms(3) by (auto simp: digitValues_def isDigit_def)
    show "d - 48 \<le> 9" using assms(4) by (auto simp: isDigit_def)
    show "d - 48 \<noteq> digitValues s ! i" using si assms(3,4,5) by (auto simp: digitValues_def isDigit_def)
  qed
  then show ?thesis using d' by (simp add: validateChecksum_luhnStandard u)
qed

lemma maskCardNumber_long:
  "8 \<le> length s \<Longrightarrow> maskCardNumber s = Inr (take 4 s @ replicate (length s - 8) 42 @ drop (length s - 4) s)"
  by (auto simp: maskCardNumber_def repeatStar_def Let_def nat_diff_distrib')

lemma maskCardNumber_mid: "4 \<le> length s \<Longrightarrow> length s < 8 \<Longrightarrow> maskCardNumber s = Inl RangeError"
  by (auto simp: maskCardNumber_def repeatStar_def Let_def)

lemma maskCardNumber_short: "length s < 4 \<Longrightarrow> maskCardNumber s = Inr (js ''****'')"
  by (auto simp: maskCardNumber_def)

section \<open>Card number validation\<close>

lemma validateCardNumber_digits:
  assumes "cardPatterns v = initialCardPatterns" and "sanitizeString iv x = s" and "isValidString iv s"
    and "\<forall>c\<in>set s. isDigit c" and "4 \<le> length s" and "length s \<le> 20"
  shows "fst (validateCardNumber iv v x) =
     (if length s = 16 \<and> \<not> validateChecksum s then CardInvalid (INVALID_CHECKSUM (js ''SUICA''))
      else case maskCardNumber s of
             Inl e \<Rightarrow> CardInvalid CARD_VALIDATION_ERROR
           | Inr masked \<Rightarrow>
               if length s = 16 then CardValid (js ''SUICA'') masked s True
               else if 10 \<le> length s \<and> length s \<le> 12 then CardValid (js ''CORPORATE'') masked s True
               else if 8 \<le> length s \<and> length s \<le> 14 then CardValid (js ''STUDENT'') masked s True
               else CardInvalid (UNKNOWN_CARD_TYPE masked))"
proof -
  have ne: "s \<noteq> []" using assms(5) by auto
  have dig: "matches (cat [Bol, Plus (CSet [ClsD]), Eol]) False s"
    using assms(4) ne by (simp only: matches_allDigits) simp
  have cp: "cardPatterns (incValidationCount v) = initialCardPatterns"
    using assms(1) by (simp add: incValidationCount_def)
  have det: "detectCardType (incValidationCount v) s =
      (fst (detectEntries initialCardPatterns s), (incValidationCount v)\<lparr>cardPatterns := initialCardPatterns\<rparr>)"
    by (simp add: detectCardType_def cp detectEntries_initial)
  have m16: "matches (digitsOnly 16 16) False s \<longleftrightarrow> length s = 16"
    using assms(4) by (auto simp: matches_digitsOnly)
  have m10: "matches (digitsOnly 10 12) False s \<longleftrightarrow> 10 \<le> length s \<and> length s \<le> 12"
    using assms(4) by (auto simp: matches_digitsOnly)
  have m8: "matches (digitsOnly 8 14) False s \<longleftrightarrow> 8 \<le> length s \<and> length s \<le> 14"
    using assms(4) by (auto simp: matches_digitsOnly)
  show ?thesis
    unfolding validateCardNumber_def Let_def assms(2) det
    using assms(3,5,6) dig
    by (simp add: detectEntries_initial m16 m10 m8 sixteen_def caught_def split: sum.splits)
qed

text \<open>
  An input that the input validator rejects: INVALID_INPUT and one suspicious attempt, or,
  for a value that cannot be converted to a string, the \<open>catch\<close> branch and two.
\<close>

lemma validateCardNumber_invalid_input:
  assumes "\<not> isValidString iv (sanitizeString iv x)"
  shows "validateCardNumber iv v x =
     (if x = JUnconvertible
      then (CardInvalid CARD_VALIDATION_ERROR, incSuspiciousAttempts (incSuspiciousAttempts (incValidationCount v)))
      else (CardInvalid INVALID_INPUT, incSuspiciousAttempts (incValidationCount v)))"
  using assms by (simp add: validateCardNumber_def Let_def caught_def)


lemma js_fixture: "js ''1234567890123456'' = [49, 50, 51, 52, 53, 54, 55, 56, 57, 48, 49, 50, 51, 52, 53, 54]"
  by (simp add: js_def)

lemma luhnLoop_numeral: "luhnLoop (numeral k) ds a b = luhnLoop (Suc (pred_numeral k)) ds a b"
  by (simp add: numeral_eq_Suc)

lemma fixture_checksum: "\<not> validateChecksum (js ''1234567890123456'')"
  unfolding js_fixture
  by (simp add: validateChecksum_def toNumber_def isDigit_def isSpace_def luhnLoop_numeral)

lemma fixture_digits: "\<forall>c\<in>set (js ''1234567890123456''). isDigit c"
  by (simp add: js_def isDigit_def)

text \<open>
  Claim C9 fails on the code: the sixteen digits of the fixture match the SUICA entry, whose
  \<open>checksum\<close> flag is set, and they do not pass the Luhn check; validateCardNumber
  returns the INVALID_CHECKSUM error, which carries the card type SUICA and no masked number.
\<close>

theorem validateCardNumber_fixture_invalid_checksum:
  "fst (validateCardNumber specInputValidator newCardValidator (JString (js ''1234567890123456'')))
     = CardInvalid (INVALID_CHECKSUM (js ''SUICA''))"
proof -
  have s: "sanitizeString specInputValidator (JString (js ''1234567890123456'')) = js ''1234567890123456''"
    by (simp add: specInputValidator_def sanitizeText_digits[OF fixture_digits])
  have v: "isValidString specInputValidator (js ''1234567890123456'')"
    by (simp add: specInputValidator_def js_def)
  have c: "cardPatterns newCardValidator = initialCardPatterns"
    by (simp add: newCardValidator_def)
  have l: "length (js ''1234567890123456'') = 16" by (simp add: js_def)
  show ?thesis
    using validateCardNumber_digits[OF c s v fixture_digits] fixture_checksum l by simp
qed

lemma five_digits: "\<forall>c\<in>set (js ''12345''). isDigit c"
  by (simp add: js_def isDigit_def)

text \<open>
  Claim C5 fails on the code: a string of four to seven digits matches no card format, and
  the result for an unknown card type is built with maskCardNumber, which throws for these
  lengths; the \<open>catch\<close> branch turns the exception into VALIDATION_ERROR.
\<close>

theorem validateCardNumber_five_digits_validation_error:
  "fst (validateCardNumber specInputValidator newCardValidator (JString (js ''12345'')))
     = CardInvalid CARD_VALIDATION_ERROR"
proof -
  have s: "sanitizeString specInputValidator (JString (js ''12345'')) = js ''12345''"
    by (simp add: specInputValidator_def sanitizeText_digits[OF five_digits])
  have v: "isValidString specInputValidator (js ''12345'')"
    by (simp add: specInputValidator_def js_def)
  have c: "cardPatterns newCardValidator = initialCardPatterns"
    by (simp add: newCardValidator_def)
  have l: "length (js ''12345'') = 5" by (simp add: js_def)
  show ?thesis
    using validateCardNumber_digits[OF c s v five_digits] l
    by (simp add: maskCardNumber_mid)
qed

text \<open>
  Claim C6 fails on the code for a number of four to seven characters: the guard of
  maskCardNumber returns the constant mask below four characters only, and from four to
  seven the count given to \<open>repeat\<close> is negative.
\<close>

theorem maskCardNumber_five_digits_throws:
  "maskCardNumber (js ''12345'') = Inl RangeError"
  by (rule maskCardNumber_mid) (simp_all add: js_def)

lemma maskCardNumber_fixture: "maskCardNumber (js ''1234567890123456'') = Inr (js ''1234********3456'')"
  by (simp add: maskCardNumber_long js_def)

lemma checksum_format_is_sixteen:
  assumes "cardPatterns v = initialCardPatterns" and "fst (detectCardType v s) = Some (t, cfg)" and "checksum cfg"
    and "\<forall>c\<in>set s. isDigit c"
  shows "length s = 16 \<and> t = js ''SUICA''"
proof -
  have "fst (detectEntries initialCardPatterns s) = Some (t, cfg)"
    using assms(1,2) by (simp add: detectCardType_def split: prod.splits)
  then show ?thesis
    using assms(3,4)
    by (auto simp: detectEntries_initial sixteen_def matches_digitsOnly split: if_splits)
qed

text \<open>
  Claim C4. On a string of decimal digits validateChecksum is the standard Luhn check; and
  when such a string is of a format that carries a checksum and passes the check, the string
  obtained by changing any one digit to a different digit is rejected by validateCardNumber
  with INVALID_CHECKSUM (the input validator letting the changed string through unchanged).
\<close>

theorem validateChecksum_luhn_single_digit:
  assumes "\<forall>c\<in>set s. isDigit c"
  shows "validateChecksum s = luhnStandard (digitValues s)
     \<and> (cardPatterns v = initialCardPatterns \<and> fst (detectCardType v s) = Some (t, cfg) \<and> checksum cfg
          \<and> validateChecksum s \<and> i < length s \<and> isDigit d \<and> d \<noteq> s ! i
          \<and> sanitizeString iv (JString (s[i := d])) = s[i := d] \<and> isValidString iv (s[i := d])
        \<longrightarrow> fst (validateCardNumber iv v (JString (s[i := d]))) = CardInvalid (INVALID_CHECKSUM t))"
proof (intro conjI impI)
  show "validateChecksum s = luhnStandard (digitValues s)"
    using assms by (rule validateChecksum_luhnStandard)
next
  assume h: "cardPatterns v = initialCardPatterns \<and> fst (detectCardType v s) = Some (t, cfg) \<and> checksum cfg
          \<and> validateChecksum s \<and> i < length s \<and> isDigit d \<and> d \<noteq> s ! i
          \<and> sanitizeString iv (JString (s[i := d])) = s[i := d] \<and> isValidString iv (s[i := d])"
  have f: "length s = 16 \<and> t = js ''SUICA''"
    using checksum_format_is_sixteen[of v s t cfg] h assms by blast
  have d': "\<forall>c\<in>set (s[i := d]). isDigit c"
    using assms h by (auto dest!: set_update_subset_insert[THEN subsetD])
  have bad: "\<not> validateChecksum (s[i := d])"
    using validateChecksum_single_digit[of s i d] assms h by blast
  have "fst (validateCardNumber iv v (JString (s[i := d]))) =
     (if length (s[i := d]) = 16 \<and> \<not> validateChecksum (s[i := d]) then CardInvalid (INVALID_CHECKSUM (js ''SUICA''))
      else case maskCardNumber (s[i := d]) of
             Inl e \<Rightarrow> CardInvalid CARD_VALIDATION_ERROR
           | Inr masked \<Rightarrow>
               if length (s[i := d]) = 16 then CardValid (js ''SUICA'') masked (s[i := d]) True
               else if 10 \<le> length (s[i := d]) \<and> length (s[i := d]) \<le> 12 then CardValid (js ''CORPORATE'') masked (s[i := d]) True
               else if 8 \<le> length (s[i := d]) \<and> length (s[i := d]) \<le> 14 then CardValid (js ''STUDENT'') masked (s[i := d]) True
               else CardInvalid (UNKNOWN_CARD_TYPE masked))"
    using h f d' by (intro validateCardNumber_digits) simp_all
  then show "fst (validateCardNumber iv v (JString (s[i := d]))) = CardInvalid (INVALID_CHECKSUM t)"
    using f bad by simp
qed

lemma js_luhn_valid: "js ''4532015112830366'' = [52, 53, 51, 50, 48, 49, 53, 49, 49, 50, 56, 51, 48, 51, 54, 54]"
  by (simp add: js_def)

lemma luhn_valid_checksum: "validateChecksum (js ''4532015112830366'')"
  unfolding js_luhn_valid
  by (simp add: validateChecksum_def toNumber_def isDigit_def isSpace_def luhnLoop_numeral)

lemma luhn_valid_digits: "\<forall>c\<in>set (js ''4532015112830366''). isDigit c"
  by (simp add: js_def isDigit_def)

lemma luhn_changed: "(js ''4532015112830366'')[15 := 55] = js ''4532015112830367''"
  by (simp add: js_def)

lemma luhn_changed_digits: "\<forall>c\<in>set (js ''4532015112830367''). isDigit c"
  by (simp add: js_def isDigit_def)

lemma luhn_valid_detected: "fst (detectCardType newCardValidator (js ''4532015112830366'')) = Some (js ''SUICA'', sixteen)"
  using luhn_valid_digits
  by (simp add: detectCardType_def newCardValidator_def detectEntries_initial matches_digitsOnly) (simp add: js_def)

theorem validateChecksum_luhn_single_digit_witness:
  "list_all isDigit (js ''4532015112830366'')
   \<and> validateChecksum (js ''4532015112830366'')
   \<and> luhnStandard (digitValues (js ''4532015112830366''))
   \<and> fst (validateCardNumber specInputValidator newCardValidator (JString (js ''4532015112830367'')))
       = CardInvalid (INVALID_CHECKSUM (js ''SUICA''))"
proof -
  have c: "cardPatterns newCardValidator = initialCardPatterns" by (simp add: newCardValidator_def)
  have k: "checksum sixteen" by (simp add: sixteen_def)
  have i: "15 < length (js ''4532015112830366'')" by (simp add: js_def)
  have d: "isDigit 55 \<and> 55 \<noteq> js ''4532015112830366'' ! 15" by (simp add: js_def isDigit_def)
  have s: "sanitizeString specInputValidator (JString ((js ''4532015112830366'')[15 := 55])) = (js ''4532015112830366'')[15 := 55]"
    unfolding luhn_changed by (simp add: specInputValidator_def sanitizeText_digits[OF luhn_changed_digits])
  have v: "isValidString specInputValidator ((js ''4532015112830366'')[15 := 55])"
    unfolding luhn_changed by (simp add: specInputValidator_def js_def)
  from validateChecksum_luhn_single_digit[OF luhn_valid_digits, of newCardValidator "js ''SUICA''" sixteen 15 55 specInputValidator]
    c luhn_valid_detected k luhn_valid_checksum i d s v luhn_valid_digits
  show ?thesis unfolding luhn_changed by (simp add: list_all_iff)
qed

section \<open>The security scan\<close>

lemma firstMatch_plain:
  "\<forall>re\<in>set res. \<not> global re \<Longrightarrow>
     firstMatch res s = (map_option pat (find (\<lambda>re. matches (pat re) (ignoreCase re) s) res), res)"
  by (induction res) (auto simp: test_plain)

lemma firstMatch_plain_None:
  "\<forall>re\<in>set res. \<not> global re \<Longrightarrow> fst (firstMatch res s) = None \<longleftrightarrow> \<not> anyMatches res s"
  by (auto simp: firstMatch_plain anyMatches_def find_None_iff list_ex_iff)

lemma performSecurityCheck_rules: "validationRules (snd (performSecurityCheck v s f)) = validationRules v"
  by (simp add: performSecurityCheck_def incSqlInjection_def incOsCommand_def incXss_def Let_def
      split: prod.splits option.splits)

lemma performSecurityCheck_stats:
  "stats (snd (performSecurityCheck v s f)) = countViolation (kindOf (fst (performSecurityCheck v s f))) (stats v)"
  by (simp add: performSecurityCheck_def incSqlInjection_def incOsCommand_def incXss_def Let_def
      split: prod.splits option.splits)

lemma performSecurityCheck_sql:
  assumes "\<forall>re\<in>set (sqlInjectionPatterns v). \<not> global re" and "anyMatches (sqlInjectionPatterns v) s"
  shows "kindOf (fst (performSecurityCheck v s f)) = Some SQL_INJECTION
       \<and> sqlInjectionPatterns (snd (performSecurityCheck v s f)) = sqlInjectionPatterns v
       \<and> osCommandPatterns (snd (performSecurityCheck v s f)) = osCommandPatterns v
       \<and> xssPatterns (snd (performSecurityCheck v s f)) = xssPatterns v"
proof -
  have "fst (firstMatch (sqlInjectionPatterns v) s) \<noteq> None"
    using assms by (simp add: firstMatch_plain_None)
  then obtain p where "firstMatch (sqlInjectionPatterns v) s = (Some p, sqlInjectionPatterns v)"
    using firstMatch_plain[OF assms(1), of s] by (cases "firstMatch (sqlInjectionPatterns v) s") auto
  then show ?thesis
    by (simp add: performSecurityCheck_def incSqlInjection_def)
qed

lemma performSecurityCheck_os:
  assumes "\<forall>re\<in>set (sqlInjectionPatterns v). \<not> global re" and "\<not> anyMatches (sqlInjectionPatterns v) s"
    and "\<forall>re\<in>set (osCommandPatterns v). \<not> global re" and "anyMatches (osCommandPatterns v) s"
  shows "kindOf (fst (performSecurityCheck v s f)) = Some OS_COMMAND_INJECTION
       \<and> sqlInjectionPatterns (snd (performSecurityCheck v s f)) = sqlInjectionPatterns v
       \<and> osCommandPatterns (snd (performSecurityCheck v s f)) = osCommandPatterns v
       \<and> xssPatterns (snd (performSecurityCheck v s f)) = xssPatterns v"
proof -
  have a: "firstMatch (sqlInjectionPatterns v) s = (None, sqlInjectionPatterns v)"
    using firstMatch_plain[OF assms(1), of s] firstMatch_plain_None[OF assms(1), of s] assms(2)
    by (cases "firstMatch (sqlInjectionPatterns v) s") auto
  have "fst (firstMatch (osCommandPatterns v) s) \<noteq> None"
    using assms by (simp add: firstMatch_plain_None)
  then obtain p where b: "firstMatch (osCommandPatterns v) s = (Some p, osCommandPatterns v)"
    using firstMatch_plain[OF assms(3), of s] by (cases "firstMatch (osCommandPatterns v) s") auto
  show ?thesis
    by (simp add: performSecurityCheck_def incOsCommand_def a b Let_def)
qed

lemma performSecurityCheck_not_sql_os:
  assumes "\<forall>re\<in>set (sqlInjectionPatterns v). \<not> global re" and "\<not> anyMatches (sqlInjectionPatterns v) s"
    and "\<forall>re\<in>set (osCommandPatterns v). \<not> global re" and "\<not> anyMatches (osCommandPatterns v) s"
  shows "kindOf (fst (performSecurityCheck v s f)) \<in> {None, Some XSS}"
proof -
  have a: "firstMatch (sqlInjectionPatterns v) s = (None, sqlInjectionPatterns v)"
    using firstMatch_plain[OF assms(1), of s] firstMatch_plain_None[OF assms(1), of s] assms(2)
    by (cases "firstMatch (sqlInjectionPatterns v) s") auto
  have b: "firstMatch (osCommandPatterns v) s = (None, osCommandPatterns v)"
    using firstMatch_plain[OF assms(3), of s] firstMatch_plain_None[OF assms(3), of s] assms(4)
    by (cases "firstMatch (osCommandPatterns v) s") auto
  show ?thesis
    by (simp add: performSecurityCheck_def incXss_def a b Let_def split: prod.splits option.splits)
qed

lemma performSecurityCheck_depends_on_patterns:
  assumes "sqlInjectionPatterns v' = sqlInjectionPatterns v" and "osCommandPatterns v' = osCommandPatterns v"
    and "xssPatterns v' = xssPatterns v"
  shows "fst (performSecurityCheck v' s f) = fst (performSecurityCheck v s f)"
  using assms
  by (simp add: performSecurityCheck_def incSqlInjection_def incOsCommand_def incXss_def Let_def
      split: prod.splits option.splits)

lemma js_onclick: "js ''onclick='' = [111, 110, 99, 108, 105, 99, 107, 61]"
  by (simp add: js_def)

lemma onclick_sql: "firstMatch initialSqlInjectionPatterns [111, 110, 99, 108, 105, 99, 107, 61] = (None, initialSqlInjectionPatterns)"
  by (simp add: initialSqlInjectionPatterns_def rx_eval)

lemma onclick_os: "firstMatch initialOsCommandPatterns [111, 110, 99, 108, 105, 99, 107, 61] = (None, initialOsCommandPatterns)"
  by (simp add: initialOsCommandPatterns_def rx_eval)

lemma onclick_xss_first:
  "firstMatch initialXssPatterns [111, 110, 99, 108, 105, 99, 107, 61] =
     (Some (pat (initialXssPatterns ! 3)), initialXssPatterns[3 := (initialXssPatterns ! 3)\<lparr>lastIndex := 8\<rparr>])"
  by (simp add: initialXssPatterns_def rx_eval)

lemma onclick_xss_second:
  "firstMatch (initialXssPatterns[3 := (initialXssPatterns ! 3)\<lparr>lastIndex := 8\<rparr>]) [111, 110, 99, 108, 105, 99, 107, 61] =
     (None, initialXssPatterns)"
  by (simp add: initialXssPatterns_def rx_eval)

lemma onclick_matches: "anyMatches initialXssPatterns [111, 110, 99, 108, 105, 99, 107, 61]"
  by (simp add: anyMatches_def initialXssPatterns_def rx_eval)

lemma onclick_first_scan:
  "performSecurityCheck newDataValidator [111, 110, 99, 108, 105, 99, 107, 61] f =
     (Unsafe XSS (pat (initialXssPatterns ! 3)),
      incXss (newDataValidator\<lparr>xssPatterns := initialXssPatterns[3 := (initialXssPatterns ! 3)\<lparr>lastIndex := 8\<rparr>]\<rparr>))"
  by (simp add: performSecurityCheck_def newDataValidator_def onclick_sql onclick_os onclick_xss_first)

lemma onclick_second_scan:
  "fst (performSecurityCheck
          (incXss (newDataValidator\<lparr>xssPatterns := initialXssPatterns[3 := (initialXssPatterns ! 3)\<lparr>lastIndex := 8\<rparr>]\<rparr>))
          [111, 110, 99, 108, 105, 99, 107, 61] f) = Safe"
  by (simp add: performSecurityCheck_def newDataValidator_def incXss_def onclick_sql onclick_os onclick_xss_second)

text \<open>
  Claim C1 fails on the code: the XSS patterns carry the \<open>g\<close> flag, so a successful
  \<open>test\<close> leaves \<open>lastIndex\<close> at the end of the match and the next \<open>test\<close> of that
  pattern starts there. A validator that has just reported XSS for \<open>onclick=\<close> reports the
  same string as safe, although the fourth XSS pattern matches it.
\<close>

theorem performSecurityCheck_second_scan_safe:
  "kindOf (fst (performSecurityCheck newDataValidator (js ''onclick='') (js ''notes''))) = Some XSS
   \<and> anyMatches (xssPatterns newDataValidator) (js ''onclick='')
   \<and> fst (performSecurityCheck (snd (performSecurityCheck newDataValidator (js ''onclick='') (js ''notes'')))
            (js ''onclick='') (js ''notes'')) = Safe"
proof -
  have a: "kindOf (fst (performSecurityCheck newDataValidator [111, 110, 99, 108, 105, 99, 107, 61] (js ''notes''))) = Some XSS"
    by (simp add: onclick_first_scan)
  have b: "anyMatches (xssPatterns newDataValidator) [111, 110, 99, 108, 105, 99, 107, 61]"
    by (simp add: newDataValidator_def onclick_matches)
  have c: "fst (performSecurityCheck (snd (performSecurityCheck newDataValidator [111, 110, 99, 108, 105, 99, 107, 61] (js ''notes'')))
            [111, 110, 99, 108, 105, 99, 107, 61] (js ''notes'')) = Safe"
    unfolding onclick_first_scan snd_conv by (rule onclick_second_scan)
  show ?thesis unfolding js_onclick using a b c by blast
qed

lemma js_embed: "js ''<embed>'' = [60, 101, 109, 98, 101, 100, 62]"
  by (simp add: js_def)

lemma embed_sql: "firstMatch initialSqlInjectionPatterns [60, 101, 109, 98, 101, 100, 62] = (None, initialSqlInjectionPatterns)"
  by (simp add: initialSqlInjectionPatterns_def rx_eval)

lemma embed_os: "firstMatch initialOsCommandPatterns [60, 101, 109, 98, 101, 100, 62] = (None, initialOsCommandPatterns)"
  by (simp add: initialOsCommandPatterns_def rx_eval)

lemma embed_xss_first:
  "firstMatch initialXssPatterns [60, 101, 109, 98, 101, 100, 62] =
     (Some (pat (initialXssPatterns ! 4)), initialXssPatterns[4 := (initialXssPatterns ! 4)\<lparr>lastIndex := 6\<rparr>])"
  by (simp add: initialXssPatterns_def rx_eval)

lemma embed_xss_second:
  "firstMatch (initialXssPatterns[4 := (initialXssPatterns ! 4)\<lparr>lastIndex := 6\<rparr>]) [60, 101, 109, 98, 101, 100, 62] =
     (None, initialXssPatterns)"
  by (simp add: initialXssPatterns_def rx_eval)

lemma embed_first_scan:
  "performSecurityCheck newDataValidator [60, 101, 109, 98, 101, 100, 62] f =
     (Unsafe XSS (pat (initialXssPatterns ! 4)),
      incXss (newDataValidator\<lparr>xssPatterns := initialXssPatterns[4 := (initialXssPatterns ! 4)\<lparr>lastIndex := 6\<rparr>]\<rparr>))"
  by (simp add: performSecurityCheck_def newDataValidator_def embed_sql embed_os embed_xss_first)

lemma embed_second_scan:
  "fst (performSecurityCheck
          (incXss (newDataValidator\<lparr>xssPatterns := initialXssPatterns[4 := (initialXssPatterns ! 4)\<lparr>lastIndex := 6\<rparr>]\<rparr>))
          [60, 101, 109, 98, 101, 100, 62] f) = Safe"
  by (simp add: performSecurityCheck_def newDataValidator_def incXss_def embed_sql embed_os embed_xss_second)

text \<open>
  Claim C7, as stated, fails: two successive scans of \<open><embed>\<close> by a new validator
  report XSS and then safe, and the first scan changes the statistics.
\<close>

theorem performSecurityCheck_not_pure:
  "kindOf (fst (performSecurityCheck (snd (performSecurityCheck newDataValidator (js ''<embed>'') (js ''notes'')))
                 (js ''<embed>'') (js ''notes'')))
     \<noteq> kindOf (fst (performSecurityCheck newDataValidator (js ''<embed>'') (js ''notes'')))
   \<and> stats (snd (performSecurityCheck newDataValidator (js ''<embed>'') (js ''notes''))) \<noteq> stats newDataValidator"
proof -
  have a: "kindOf (fst (performSecurityCheck newDataValidator [60, 101, 109, 98, 101, 100, 62] (js ''notes''))) = Some XSS"
    by (simp add: embed_first_scan)
  have c: "fst (performSecurityCheck (snd (performSecurityCheck newDataValidator [60, 101, 109, 98, 101, 100, 62] (js ''notes'')))
            [60, 101, 109, 98, 101, 100, 62] (js ''notes'')) = Safe"
    unfolding embed_first_scan snd_conv by (rule embed_second_scan)
  have d: "stats (snd (performSecurityCheck newDataValidator [60, 101, 109, 98, 101, 100, 62] (js ''notes''))) \<noteq> stats newDataValidator"
    unfolding embed_first_scan snd_conv by (simp add: newDataValidator_def incXss_def initialStats_def)
  show ?thesis unfolding js_embed using a c d by simp
qed

text \<open>
  A string that a pattern does not match: \<open>test\<close> answers false from every \<open>lastIndex\<close>,
  so a scan of a string that no pattern matches is safe in every state of the validator.
\<close>

lemma search_tail_None: "search r ic pv (c # cs) = None \<Longrightarrow> search r ic (Some c) cs = None"
  by (simp split: list.splits)
lemma search_drop_None:
  "search r ic pv s = None \<Longrightarrow> li \<le> length s \<Longrightarrow>
     search r ic (if li = 0 then pv else Some (s ! (li - 1))) (drop li s) = None"
proof (induction s arbitrary: pv li)
  case Nil
  then show ?case by simp
next
  case (Cons c cs)
  show ?case
  proof (cases li)
    case 0
    then show ?thesis using Cons.prems by simp
  next
    case (Suc k)
    have t: "search r ic (Some c) cs = None" using Cons.prems(1) by (rule search_tail_None)
    have "search r ic (if k = 0 then Some c else Some (cs ! (k - 1))) (drop k cs) = None"
      using Cons.IH[OF t, of k] Cons.prems(2) Suc by simp
    then show ?thesis unfolding Suc by (cases k) simp_all
  qed
qed
lemma test_noMatch:
  assumes "\<not> matches (pat re) (ignoreCase re) s"
  shows "\<not> fst (test re s) \<and> pat (snd (test re s)) = pat re \<and> ignoreCase (snd (test re s)) = ignoreCase re"
proof -
  have n: "search (pat re) (ignoreCase re) None s = None" using assms unfolding matches_def by blast
  have "search (pat re) (ignoreCase re) (if li = 0 then None else Some (s ! (li - 1))) (drop li s) = None"
    if "li \<le> length s" for li
    using search_drop_None[OF n that] by simp
  then show ?thesis by (auto simp: test_def Let_def split: option.splits)
qed
lemma firstMatch_noMatch:
  "\<not> anyMatches res s \<Longrightarrow> fst (firstMatch res s) = None \<and> \<not> anyMatches (snd (firstMatch res s)) s"
proof (induction res)
  case Nil
  show ?case by (simp add: anyMatches_def)
next
  case (Cons re res)
  have a: "\<not> matches (pat re) (ignoreCase re) s" and b: "\<not> anyMatches res s"
    using Cons.prems by (simp_all add: anyMatches_def)
  obtain re' where t: "test re s = (False, re')" and p: "pat re' = pat re" "ignoreCase re' = ignoreCase re"
    using test_noMatch[OF a] by (cases "test re s") auto
  obtain found res' where f: "firstMatch res s = (found, res')" by (cases "firstMatch res s")
  show ?case using Cons.IH[OF b] a
    by (simp add: t p f anyMatches_def)
qed
lemma performSecurityCheck_clean:
  assumes "\<not> anyMatches (sqlInjectionPatterns v) s" and "\<not> anyMatches (osCommandPatterns v) s"
    and "\<not> anyMatches (xssPatterns v) s"
  shows "fst (performSecurityCheck v s f) = Safe
       \<and> \<not> anyMatches (sqlInjectionPatterns (snd (performSecurityCheck v s f))) s
       \<and> \<not> anyMatches (osCommandPatterns (snd (performSecurityCheck v s f))) s
       \<and> \<not> anyMatches (xssPatterns (snd (performSecurityCheck v s f))) s"
proof -
  obtain sql' where a: "firstMatch (sqlInjectionPatterns v) s = (None, sql')" and a': "\<not> anyMatches sql' s"
    using firstMatch_noMatch[OF assms(1)] by (cases "firstMatch (sqlInjectionPatterns v) s") auto
  obtain os' where b: "firstMatch (osCommandPatterns v) s = (None, os')" and b': "\<not> anyMatches os' s"
    using firstMatch_noMatch[OF assms(2)] by (cases "firstMatch (osCommandPatterns v) s") auto
  obtain xss' where c: "firstMatch (xssPatterns v) s = (None, xss')" and c': "\<not> anyMatches xss' s"
    using firstMatch_noMatch[OF assms(3)] by (cases "firstMatch (xssPatterns v) s") auto
  show ?thesis using a' b' c' by (simp add: performSecurityCheck_def a b c Let_def)
qed
lemma performSecurityCheck_clean_twice:
  assumes "\<not> anyMatches (sqlInjectionPatterns v) s" and "\<not> anyMatches (osCommandPatterns v) s"
    and "\<not> anyMatches (xssPatterns v) s"
  shows "fst (performSecurityCheck v s f) = Safe
       \<and> fst (performSecurityCheck (snd (performSecurityCheck v s f)) s f) = Safe"
  using performSecurityCheck_clean[OF assms, of f]
    performSecurityCheck_clean[of "snd (performSecurityCheck v s f)" s f] by simp
text \<open>
  Claim C7, amended. A scan performs detection only: it leaves the rule registry as it was,
  and of the statistics it changes one counter, adding one to the counter of the violation
  kind it reports (none when it reports safe). Two successive scans of the same string
  return the same result when the first reports SQL_INJECTION or OS_COMMAND_INJECTION (the
  SQL and OS-command patterns carrying no \<open>g\<close> flag, as the built-in ones do), and when
  no pattern of any set matches the string: both scans are then safe, in every state of the
  validator.
\<close>

theorem performSecurityCheck_effects:
  "validationRules (snd (performSecurityCheck v s f)) = validationRules v
   \<and> stats (snd (performSecurityCheck v s f)) = countViolation (kindOf (fst (performSecurityCheck v s f))) (stats v)
   \<and> ((\<forall>re\<in>set (sqlInjectionPatterns v) \<union> set (osCommandPatterns v). \<not> global re)
        \<and> kindOf (fst (performSecurityCheck v s f)) \<in> {Some SQL_INJECTION, Some OS_COMMAND_INJECTION}
       \<longrightarrow> fst (performSecurityCheck (snd (performSecurityCheck v s f)) s f) = fst (performSecurityCheck v s f))
   \<and> (\<not> anyMatches (sqlInjectionPatterns v) s \<and> \<not> anyMatches (osCommandPatterns v) s
        \<and> \<not> anyMatches (xssPatterns v) s
       \<longrightarrow> fst (performSecurityCheck v s f) = Safe
           \<and> fst (performSecurityCheck (snd (performSecurityCheck v s f)) s f) = Safe)"
proof (intro conjI impI)
  show "validationRules (snd (performSecurityCheck v s f)) = validationRules v"
    by (rule performSecurityCheck_rules)
  show "stats (snd (performSecurityCheck v s f)) = countViolation (kindOf (fst (performSecurityCheck v s f))) (stats v)"
    by (rule performSecurityCheck_stats)
next
  assume h: "(\<forall>re\<in>set (sqlInjectionPatterns v) \<union> set (osCommandPatterns v). \<not> global re)
        \<and> kindOf (fst (performSecurityCheck v s f)) \<in> {Some SQL_INJECTION, Some OS_COMMAND_INJECTION}"
  then have gs: "\<forall>re\<in>set (sqlInjectionPatterns v). \<not> global re"
    and go: "\<forall>re\<in>set (osCommandPatterns v). \<not> global re" by auto
  have same: "sqlInjectionPatterns (snd (performSecurityCheck v s f)) = sqlInjectionPatterns v
       \<and> osCommandPatterns (snd (performSecurityCheck v s f)) = osCommandPatterns v
       \<and> xssPatterns (snd (performSecurityCheck v s f)) = xssPatterns v"
  proof (cases "anyMatches (sqlInjectionPatterns v) s")
    case True
    from performSecurityCheck_sql[OF gs True, of f] show ?thesis by simp
  next
    case False
    show ?thesis
    proof (cases "anyMatches (osCommandPatterns v) s")
      case True
      from performSecurityCheck_os[OF gs False go True, of f] show ?thesis by simp
    next
      case nos: False
      from performSecurityCheck_not_sql_os[OF gs False go nos, of f] h show ?thesis by auto
    qed
  qed
  then show "fst (performSecurityCheck (snd (performSecurityCheck v s f)) s f) = fst (performSecurityCheck v s f)"
    by (intro performSecurityCheck_depends_on_patterns) simp_all
next
  assume c: "\<not> anyMatches (sqlInjectionPatterns v) s \<and> \<not> anyMatches (osCommandPatterns v) s
        \<and> \<not> anyMatches (xssPatterns v) s"
  then show "fst (performSecurityCheck v s f) = Safe"
    using performSecurityCheck_clean_twice[of v s f] by simp
  from c show "fst (performSecurityCheck (snd (performSecurityCheck v s f)) s f) = Safe"
    using performSecurityCheck_clean_twice[of v s f] by simp
qed

lemma js_drop: "js ''DROP TABLE users'' = [68, 82, 79, 80, 32, 84, 65, 66, 76, 69, 32, 117, 115, 101, 114, 115]"
  by (simp add: js_def)

lemma drop_matches: "matches (pat (initialSqlInjectionPatterns ! 0)) (ignoreCase (initialSqlInjectionPatterns ! 0))
    [68, 82, 79, 80, 32, 84, 65, 66, 76, 69, 32, 117, 115, 101, 114, 115]"
  by (simp add: initialSqlInjectionPatterns_def rx_eval)

lemma drop_anyMatches: "anyMatches (sqlInjectionPatterns newDataValidator) (js ''DROP TABLE users'')"
proof -
  have "initialSqlInjectionPatterns ! 0 \<in> set initialSqlInjectionPatterns"
    by (simp add: initialSqlInjectionPatterns_def)
  then show ?thesis
    unfolding anyMatches_def list_ex_iff js_drop using drop_matches
    by (auto simp: newDataValidator_def)
qed

lemma initial_patterns_plain:
  "\<forall>re\<in>set (sqlInjectionPatterns newDataValidator) \<union> set (osCommandPatterns newDataValidator). \<not> global re"
  by (simp add: newDataValidator_def initialSqlInjectionPatterns_def initialOsCommandPatterns_def mkRegex_def)

lemma js_emp: "js ''EMP001'' = [69, 77, 80, 48, 48, 49]"
  by (simp add: js_def)

lemma emp_clean:
  "\<not> anyMatches (sqlInjectionPatterns newDataValidator) (js ''EMP001'')
   \<and> \<not> anyMatches (osCommandPatterns newDataValidator) (js ''EMP001'')
   \<and> \<not> anyMatches (xssPatterns newDataValidator) (js ''EMP001'')"
  unfolding js_emp
  by (simp add: anyMatches_def newDataValidator_def initialSqlInjectionPatterns_def initialOsCommandPatterns_def
      initialXssPatterns_def rx_eval)
theorem performSecurityCheck_effects_witness:
  "kindOf (fst (performSecurityCheck newDataValidator (js ''DROP TABLE users'') (js ''notes''))) = Some SQL_INJECTION
   \<and> fst (performSecurityCheck (snd (performSecurityCheck newDataValidator (js ''DROP TABLE users'') (js ''notes'')))
           (js ''DROP TABLE users'') (js ''notes''))
       = fst (performSecurityCheck newDataValidator (js ''DROP TABLE users'') (js ''notes''))
   \<and> sqlInjection (violationTypes (stats (snd (performSecurityCheck newDataValidator (js ''DROP TABLE users'') (js ''notes''))))) = 1
   \<and> validationRules (snd (performSecurityCheck newDataValidator (js ''DROP TABLE users'') (js ''notes''))) = initialRules
   \<and> \<not> anyMatches (sqlInjectionPatterns newDataValidator) (js ''EMP001'')
   \<and> \<not> anyMatches (osCommandPatterns newDataValidator) (js ''EMP001'')
   \<and> \<not> anyMatches (xssPatterns newDataValidator) (js ''EMP001'')
   \<and> fst (performSecurityCheck newDataValidator (js ''EMP001'') (js ''employeeId'')) = Safe
   \<and> fst (performSecurityCheck (snd (performSecurityCheck newDataValidator (js ''EMP001'') (js ''employeeId'')))
           (js ''EMP001'') (js ''employeeId'')) = Safe"
proof -
  have g: "\<forall>re\<in>set (sqlInjectionPatterns newDataValidator). \<not> global re"
    using initial_patterns_plain by auto
  have k: "kindOf (fst (performSecurityCheck newDataValidator (js ''DROP TABLE users'') (js ''notes''))) = Some SQL_INJECTION"
    using performSecurityCheck_sql[OF g drop_anyMatches] by simp
  have a: "kindOf (fst (performSecurityCheck newDataValidator (js ''DROP TABLE users'') (js ''notes''))) = Some SQL_INJECTION
   \<and> fst (performSecurityCheck (snd (performSecurityCheck newDataValidator (js ''DROP TABLE users'') (js ''notes'')))
           (js ''DROP TABLE users'') (js ''notes''))
       = fst (performSecurityCheck newDataValidator (js ''DROP TABLE users'') (js ''notes''))
   \<and> sqlInjection (violationTypes (stats (snd (performSecurityCheck newDataValidator (js ''DROP TABLE users'') (js ''notes''))))) = 1
   \<and> validationRules (snd (performSecurityCheck newDataValidator (js ''DROP TABLE users'') (js ''notes''))) = initialRules"
    using performSecurityCheck_effects[of newDataValidator "js ''DROP TABLE users''" "js ''notes''"] k initial_patterns_plain
    by (simp add: newDataValidator_def initialStats_def)
  have b: "fst (performSecurityCheck newDataValidator (js ''EMP001'') (js ''employeeId'')) = Safe
   \<and> fst (performSecurityCheck (snd (performSecurityCheck newDataValidator (js ''EMP001'') (js ''employeeId'')))
           (js ''EMP001'') (js ''employeeId'')) = Safe"
    using performSecurityCheck_effects[of newDataValidator "js ''EMP001''" "js ''employeeId''"] emp_clean
    by blast
  show ?thesis using a b emp_clean by blast
qed
section \<open>Field validation\<close>

lemma performSecurityCheck_incTotal:
  "fst (performSecurityCheck (incTotal v) s f) = fst (performSecurityCheck v s f)"
  by (rule performSecurityCheck_depends_on_patterns) (simp_all add: incTotal_def)
lemma performSecurityCheck_patterns:
  "sqlInjectionPatterns (snd (performSecurityCheck v s f)) = snd (firstMatch (sqlInjectionPatterns v) s)
   \<and> osCommandPatterns (snd (performSecurityCheck v s f))
       = (if fst (firstMatch (sqlInjectionPatterns v) s) = None then snd (firstMatch (osCommandPatterns v) s)
          else osCommandPatterns v)
   \<and> xssPatterns (snd (performSecurityCheck v s f))
       = (if fst (firstMatch (sqlInjectionPatterns v) s) = None \<and> fst (firstMatch (osCommandPatterns v) s) = None
          then snd (firstMatch (xssPatterns v) s) else xssPatterns v)"
  by (simp add: performSecurityCheck_def incSqlInjection_def incOsCommand_def incXss_def Let_def
      split: prod.splits option.splits)
lemma validateField_unknown:
  "getProp (validationRules v) fieldName = Absent \<Longrightarrow>
     fst (validateField iv v fieldName value allowEmpty) = Invalid UNKNOWN_FIELD"
  by (simp add: validateField_def incTotal_def Let_def)
lemma validateField_registered:
  "getProp (validationRules v) fieldName = Own r \<Longrightarrow>
     validateField iv v fieldName value allowEmpty = checkField iv (incTotal v) fieldName (Some r) value allowEmpty"
  by (simp add: validateField_def incTotal_def Let_def)
lemma checkField_nullish:
  "isNullish value \<Longrightarrow>
     fst (checkField iv v fieldName (Some r) value allowEmpty) =
       (if required r \<and> \<not> allowEmpty then Invalid REQUIRED_FIELD else Valid [] None)"
  by (simp add: checkField_def ruleRequired_def)
lemma checkField_unconvertible:
  "checkField iv v fieldName r JUnconvertible allowEmpty = (Invalid VALIDATION_ERROR, incFailed v)"
  by (simp add: checkField_def isNullish_def caughtField_def)
lemma checkField_unsafe:
  "\<not> isNullish value \<Longrightarrow> toJSString value = Inr s \<Longrightarrow> fst (performSecurityCheck v s fieldName) = Unsafe k p \<Longrightarrow>
     checkField iv v fieldName r value allowEmpty =
       (Invalid (SECURITY_VIOLATION k), incFailed (incSecurityViolations (snd (performSecurityCheck v s fieldName))))"
  by (cases "performSecurityCheck v s fieldName") (simp add: checkField_def)
lemma checkField_safe:
  assumes "\<not> isNullish value" and "toJSString value = Inr s" and "fst (performSecurityCheck v s fieldName) = Safe"
  shows "fst (checkField iv v fieldName (Some r) value allowEmpty) =
     (if length s > maxLength r then Invalid (EXCESSIVE_LENGTH (length s) (maxLength r))
      else if required r \<and> trim s = [] then Invalid REQUIRED_FIELD
      else if patternThrows r s then Invalid VALIDATION_ERROR
      else if formatFails r s then Invalid INVALID_FORMAT
      else Valid (if sanitize r then sanitizeString iv (JString s) else s) (Some s))"
  using assms
  by (cases "performSecurityCheck v s fieldName"; cases "pattern r")
     (auto simp: checkField_def exceedsMaxLength_def ruleMaxLength_def ruleRequired_def rulePattern_def
        ruleSanitize_def formatFails_def patternThrows_def finishField_def caughtField_def
      split: prod.splits bool.splits)
lemma performSecurityCheck_flags_sql_os:
  assumes "\<forall>re\<in>set (sqlInjectionPatterns v) \<union> set (osCommandPatterns v). \<not> global re"
    and "anyMatches (sqlInjectionPatterns v) s \<or> anyMatches (osCommandPatterns v) s"
  shows "\<exists>k p. fst (performSecurityCheck v s f) = Unsafe k p"
proof -
  have gs: "\<forall>re\<in>set (sqlInjectionPatterns v). \<not> global re"
    and go: "\<forall>re\<in>set (osCommandPatterns v). \<not> global re" using assms(1) by auto
  have "kindOf (fst (performSecurityCheck v s f)) \<noteq> None"
  proof (cases "anyMatches (sqlInjectionPatterns v) s")
    case True
    from performSecurityCheck_sql[OF gs True, of f] show ?thesis by simp
  next
    case False
    then have "anyMatches (osCommandPatterns v) s" using assms(2) by simp
    from performSecurityCheck_os[OF gs False go this, of f] show ?thesis by simp
  qed
  then show ?thesis by (cases "fst (performSecurityCheck v s f)") auto
qed
text \<open>
  The order of the checks. validateField answers UNKNOWN_FIELD for a name that is not
  registered, whatever the value. For a registered name it checks, in this order: an absent
  value (REQUIRED_FIELD or the empty success), the conversion to a string (VALIDATION_ERROR
  for a value that cannot be converted), the security scan (SECURITY_VIOLATION with the kind
  the scan reports, whatever the length), the maximum length (EXCESSIVE_LENGTH with the
  length of the input and the limit), a required value that is blank after trimming
  (REQUIRED_FIELD), the pattern (VALIDATION_ERROR when it is no RegExp, INVALID_FORMAT when
  it does not match), and then it returns the sanitized value, or the string itself when the
  rule does not sanitize. The scan is the scan of the validator in its present state.
\<close>

lemma validateField_order:
  "(getProp (validationRules v) fieldName = Absent \<longrightarrow>
      fst (validateField iv v fieldName value allowEmpty) = Invalid UNKNOWN_FIELD)
   \<and> (getProp (validationRules v) fieldName = Own r \<longrightarrow>
        (isNullish value \<longrightarrow>
           fst (validateField iv v fieldName value allowEmpty)
             = (if required r \<and> \<not> allowEmpty then Invalid REQUIRED_FIELD else Valid [] None))
      \<and> (value = JUnconvertible \<longrightarrow>
           fst (validateField iv v fieldName value allowEmpty) = Invalid VALIDATION_ERROR)
      \<and> (\<forall>s. \<not> isNullish value \<and> toJSString value = Inr s \<longrightarrow>
           (let res = fst (validateField iv v fieldName value allowEmpty);
                scan = fst (performSecurityCheck v s fieldName)
            in (\<forall>k p. scan = Unsafe k p \<longrightarrow> res = Invalid (SECURITY_VIOLATION k))
             \<and> (scan = Safe \<and> length s > maxLength r \<longrightarrow>
                  res = Invalid (EXCESSIVE_LENGTH (length s) (maxLength r)))
             \<and> (scan = Safe \<and> length s \<le> maxLength r \<and> required r \<and> trim s = [] \<longrightarrow>
                  res = Invalid REQUIRED_FIELD)
             \<and> (scan = Safe \<and> length s \<le> maxLength r \<and> \<not> (required r \<and> trim s = []) \<and> patternThrows r s \<longrightarrow>
                  res = Invalid VALIDATION_ERROR)
             \<and> (scan = Safe \<and> length s \<le> maxLength r \<and> \<not> (required r \<and> trim s = []) \<and> formatFails r s \<longrightarrow>
                  res = Invalid INVALID_FORMAT)
             \<and> (scan = Safe \<and> length s \<le> maxLength r \<and> \<not> (required r \<and> trim s = [])
                  \<and> \<not> patternThrows r s \<and> \<not> formatFails r s \<longrightarrow>
                  res = Valid (if sanitize r then sanitizeString iv (JString s) else s) (Some s))
             \<and> ((\<forall>re\<in>set (sqlInjectionPatterns v) \<union> set (osCommandPatterns v). \<not> global re)
                  \<and> (anyMatches (sqlInjectionPatterns v) s \<or> anyMatches (osCommandPatterns v) s)
                \<longrightarrow> (\<exists>k. res = Invalid (SECURITY_VIOLATION k))))))"
proof (intro conjI impI allI)
  assume "getProp (validationRules v) fieldName = Absent"
  then show "fst (validateField iv v fieldName value allowEmpty) = Invalid UNKNOWN_FIELD"
    by (rule validateField_unknown)
next
  assume own: "getProp (validationRules v) fieldName = Own r" and "isNullish value"
  then show "fst (validateField iv v fieldName value allowEmpty)
      = (if required r \<and> \<not> allowEmpty then Invalid REQUIRED_FIELD else Valid [] None)"
    by (simp add: validateField_registered checkField_nullish)
next
  assume own: "getProp (validationRules v) fieldName = Own r" and "value = JUnconvertible"
  then show "fst (validateField iv v fieldName value allowEmpty) = Invalid VALIDATION_ERROR"
    by (simp add: validateField_registered checkField_unconvertible)
next
  fix s
  assume own: "getProp (validationRules v) fieldName = Own r"
    and val: "\<not> isNullish value \<and> toJSString value = Inr s"
  define res where "res = fst (validateField iv v fieldName value allowEmpty)"
  define scan where "scan = fst (performSecurityCheck v s fieldName)"
  have res: "res = fst (checkField iv (incTotal v) fieldName (Some r) value allowEmpty)"
    unfolding res_def using own by (simp add: validateField_registered)
  have scan': "fst (performSecurityCheck (incTotal v) s fieldName) = scan"
    by (simp add: scan_def performSecurityCheck_incTotal)
  have unsafe: "\<forall>k p. scan = Unsafe k p \<longrightarrow> res = Invalid (SECURITY_VIOLATION k)"
    unfolding res using scan' val by (auto simp: checkField_unsafe)
  have safe: "scan = Safe \<Longrightarrow> res =
     (if length s > maxLength r then Invalid (EXCESSIVE_LENGTH (length s) (maxLength r))
      else if required r \<and> trim s = [] then Invalid REQUIRED_FIELD
      else if patternThrows r s then Invalid VALIDATION_ERROR
      else if formatFails r s then Invalid INVALID_FORMAT
      else Valid (if sanitize r then sanitizeString iv (JString s) else s) (Some s))"
    unfolding res using scan' val by (intro checkField_safe) simp_all
  have nt: "\<not> (patternThrows r s \<and> formatFails r s)"
    by (auto simp: patternThrows_def formatFails_def)
  have flagged: "(\<forall>re\<in>set (sqlInjectionPatterns v) \<union> set (osCommandPatterns v). \<not> global re)
        \<and> (anyMatches (sqlInjectionPatterns v) s \<or> anyMatches (osCommandPatterns v) s)
      \<Longrightarrow> \<exists>k. res = Invalid (SECURITY_VIOLATION k)"
  proof -
    assume h: "(\<forall>re\<in>set (sqlInjectionPatterns v) \<union> set (osCommandPatterns v). \<not> global re)
        \<and> (anyMatches (sqlInjectionPatterns v) s \<or> anyMatches (osCommandPatterns v) s)"
    obtain k p where "scan = Unsafe k p"
      using performSecurityCheck_flags_sql_os[of v s fieldName] h unfolding scan_def by blast
    then show ?thesis using unsafe by blast
  qed
  show "let res = fst (validateField iv v fieldName value allowEmpty);
            scan = fst (performSecurityCheck v s fieldName)
        in (\<forall>k p. scan = Unsafe k p \<longrightarrow> res = Invalid (SECURITY_VIOLATION k))
         \<and> (scan = Safe \<and> length s > maxLength r \<longrightarrow>
              res = Invalid (EXCESSIVE_LENGTH (length s) (maxLength r)))
         \<and> (scan = Safe \<and> length s \<le> maxLength r \<and> required r \<and> trim s = [] \<longrightarrow>
              res = Invalid REQUIRED_FIELD)
         \<and> (scan = Safe \<and> length s \<le> maxLength r \<and> \<not> (required r \<and> trim s = []) \<and> patternThrows r s \<longrightarrow>
              res = Invalid VALIDATION_ERROR)
         \<and> (scan = Safe \<and> length s \<le> maxLength r \<and> \<not> (required r \<and> trim s = []) \<and> formatFails r s \<longrightarrow>
              res = Invalid INVALID_FORMAT)
         \<and> (scan = Safe \<and> length s \<le> maxLength r \<and> \<not> (required r \<and> trim s = [])
              \<and> \<not> patternThrows r s \<and> \<not> formatFails r s \<longrightarrow>
              res = Valid (if sanitize r then sanitizeString iv (JString s) else s) (Some s))
         \<and> ((\<forall>re\<in>set (sqlInjectionPatterns v) \<union> set (osCommandPatterns v). \<not> global re)
              \<and> (anyMatches (sqlInjectionPatterns v) s \<or> anyMatches (osCommandPatterns v) s)
            \<longrightarrow> (\<exists>k. res = Invalid (SECURITY_VIOLATION k)))"
    unfolding Let_def res_def[symmetric] scan_def[symmetric]
    using unsafe safe flagged nt by (auto split: if_splits)
qed

text \<open>
  The statistics of the field validator when a conversion throws: the call is counted, and
  counted as failed.
\<close>

lemma validateField_unconvertible:
  "getProp (validationRules v) fieldName = Own r \<Longrightarrow>
     validateField iv v fieldName JUnconvertible allowEmpty = (Invalid VALIDATION_ERROR, incFailed (incTotal v))"
  by (simp add: validateField_registered checkField_unconvertible)

lemma checkField_notRegExp:
  assumes "toJSString value = Inr s" and "\<not> isNullish value"
    and "performSecurityCheck v s fieldName = (Safe, v1)"
    and "length s \<le> maxLength r" and "trim s \<noteq> []" and "pattern r = NotRegExp"
  shows "checkField iv v fieldName (Some r) value allowEmpty = (Invalid VALIDATION_ERROR, incFailed v1)"
  using assms
  by (simp add: checkField_def exceedsMaxLength_def ruleRequired_def rulePattern_def caughtField_def)
lemma lossTime_rule: "getProp (validationRules newDataValidator) (js ''lossTime'') = Own (snd (initialRules ! 8))"
  by (simp add: getProp_def newDataValidator_def initialRules_def js_def)

lemma lossTime_limit: "maxLength (snd (initialRules ! 8)) = 5"
  by (simp add: initialRules_def)

lemma notes_rule: "getProp (validationRules newDataValidator) (js ''notes'') = Own (snd (initialRules ! 14))"
  by (simp add: getProp_def newDataValidator_def initialRules_def js_def)
text \<open>The validator after the field validator has rejected \<open>onclick=\<close> for the field notes.\<close>

lemma onclick_notes:
  "fst (validateField iv newDataValidator (js ''notes'') (JString (js ''onclick='')) False)
     = Invalid (SECURITY_VIOLATION XSS)
   \<and> validationRules (snd (validateField iv newDataValidator (js ''notes'') (JString (js ''onclick='')) False))
       = initialRules
   \<and> sqlInjectionPatterns (snd (validateField iv newDataValidator (js ''notes'') (JString (js ''onclick='')) False))
       = initialSqlInjectionPatterns
   \<and> osCommandPatterns (snd (validateField iv newDataValidator (js ''notes'') (JString (js ''onclick='')) False))
       = initialOsCommandPatterns
   \<and> xssPatterns (snd (validateField iv newDataValidator (js ''notes'') (JString (js ''onclick='')) False))
       = initialXssPatterns[3 := (initialXssPatterns ! 3)\<lparr>lastIndex := 8\<rparr>]"
proof -
  have n: "\<not> isNullish (JString (js ''onclick=''))" by (simp add: isNullish_def)
  have c: "toJSString (JString (js ''onclick='')) = Inr [111, 110, 99, 108, 105, 99, 107, 61]"
    by (simp add: js_onclick)
  have s: "fst (performSecurityCheck (incTotal newDataValidator) [111, 110, 99, 108, 105, 99, 107, 61] (js ''notes''))
      = Unsafe XSS (pat (initialXssPatterns ! 3))"
    by (simp add: performSecurityCheck_incTotal onclick_first_scan)
  have p: "sqlInjectionPatterns (incTotal newDataValidator) = initialSqlInjectionPatterns"
    "osCommandPatterns (incTotal newDataValidator) = initialOsCommandPatterns"
    "xssPatterns (incTotal newDataValidator) = initialXssPatterns"
    "validationRules (incTotal newDataValidator) = initialRules"
    by (simp_all add: incTotal_def newDataValidator_def)
  have q: "sqlInjectionPatterns (snd (performSecurityCheck (incTotal newDataValidator) [111, 110, 99, 108, 105, 99, 107, 61] (js ''notes'')))
        = initialSqlInjectionPatterns"
    "osCommandPatterns (snd (performSecurityCheck (incTotal newDataValidator) [111, 110, 99, 108, 105, 99, 107, 61] (js ''notes'')))
        = initialOsCommandPatterns"
    "xssPatterns (snd (performSecurityCheck (incTotal newDataValidator) [111, 110, 99, 108, 105, 99, 107, 61] (js ''notes'')))
        = initialXssPatterns[3 := (initialXssPatterns ! 3)\<lparr>lastIndex := 8\<rparr>]"
    "validationRules (snd (performSecurityCheck (incTotal newDataValidator) [111, 110, 99, 108, 105, 99, 107, 61] (js ''notes'')))
        = initialRules"
    unfolding performSecurityCheck_rules
    by (simp_all add: performSecurityCheck_patterns p onclick_sql onclick_os onclick_xss_first)
  show ?thesis
    unfolding validateField_registered[OF notes_rule] checkField_unsafe[OF n c s]
    using q by (simp add: incFailed_def incSecurityViolations_def)
qed
text \<open>
  Claim C2 fails on the code, by the defect of claim C1. validateField does run the scan
  before the length check, but the scan reads the \<open>lastIndex\<close> that an earlier scan left
  in the XSS patterns. A new validator rejects \<open>onclick=\<close> for the field notes as an XSS
  violation; asked next about the same value for the field lossTime, whose limit is 5, it
  finds the value safe and answers EXCESSIVE_LENGTH with the length 8 and the limit 5,
  although the fourth XSS pattern matches the value.
\<close>

theorem validateField_xss_then_excessive_length:
  "fst (validateField specInputValidator newDataValidator (js ''notes'') (JString (js ''onclick='')) False)
     = Invalid (SECURITY_VIOLATION XSS)
   \<and> anyMatches (xssPatterns newDataValidator) (js ''onclick='')
   \<and> maxLength (snd (initialRules ! 8)) < length (js ''onclick='')
   \<and> getProp (validationRules newDataValidator) (js ''lossTime'') = Own (snd (initialRules ! 8))
   \<and> fst (validateField specInputValidator
            (snd (validateField specInputValidator newDataValidator (js ''notes'') (JString (js ''onclick='')) False))
            (js ''lossTime'') (JString (js ''onclick='')) False)
       = Invalid (EXCESSIVE_LENGTH 8 5)"
proof -
  define v1 where
    "v1 = snd (validateField specInputValidator newDataValidator (js ''notes'') (JString (js ''onclick='')) False)"
  note first = onclick_notes[of specInputValidator, folded v1_def]
  have n: "\<not> isNullish (JString (js ''onclick=''))" by (simp add: isNullish_def)
  have c: "toJSString (JString (js ''onclick='')) = Inr [111, 110, 99, 108, 105, 99, 107, 61]"
    by (simp add: js_onclick)
  have r: "getProp (validationRules v1) (js ''lossTime'') = Own (snd (initialRules ! 8))"
    using first lossTime_rule by (simp add: newDataValidator_def)
  have "fst (performSecurityCheck (incTotal v1) [111, 110, 99, 108, 105, 99, 107, 61] (js ''lossTime''))
      = fst (performSecurityCheck
          (incXss (newDataValidator\<lparr>xssPatterns := initialXssPatterns[3 := (initialXssPatterns ! 3)\<lparr>lastIndex := 8\<rparr>]\<rparr>))
          [111, 110, 99, 108, 105, 99, 107, 61] (js ''lossTime''))"
    using first
    by (intro performSecurityCheck_depends_on_patterns) (simp_all add: incTotal_def incXss_def newDataValidator_def)
  then have s: "fst (performSecurityCheck (incTotal v1) [111, 110, 99, 108, 105, 99, 107, 61] (js ''lossTime'')) = Safe"
    by (simp add: onclick_second_scan)
  have second: "fst (validateField specInputValidator v1 (js ''lossTime'') (JString (js ''onclick='')) False)
       = Invalid (EXCESSIVE_LENGTH 8 5)"
    unfolding validateField_registered[OF r] checkField_safe[OF n c s]
    by (simp add: lossTime_limit)
  have m: "anyMatches (xssPatterns newDataValidator) (js ''onclick='')"
    unfolding js_onclick by (simp add: newDataValidator_def onclick_matches)
  have l: "maxLength (snd (initialRules ! 8)) < length (js ''onclick='')"
    by (simp add: lossTime_limit js_onclick)
  show ?thesis using first second m l lossTime_rule unfolding v1_def by blast
qed
section \<open>Object validation\<close>

lemma checkRequired_fields:
  "errors (checkRequired data req res) = errors res @ map MISSING_REQUIRED_FIELD (filter (isMissing data) req)
   \<and> valid (checkRequired data req res) = (valid res \<and> filter (isMissing data) req = [])
   \<and> sanitizedData (checkRequired data req res) = sanitizedData res
   \<and> fieldResults (checkRequired data req res) = fieldResults res
   \<and> dataHash (checkRequired data req res) = dataHash res"
  by (induction req arbitrary: res) auto

lemma validateEntries_fields:
  "errors (fst (validateEntries iv v data res)) = errors res @ failuresOf (runFields iv v data)
   \<and> valid (fst (validateEntries iv v data res)) = (valid res \<and> failuresOf (runFields iv v data) = [])
   \<and> sanitizedData (fst (validateEntries iv v data res))
       = foldl (\<lambda>obj (k, x). setProp obj k x) (sanitizedData res) (successesOf (runFields iv v data))"
proof (induction data arbitrary: v res)
  case Nil
  show ?case by simp
next
  case (Cons entry data)
  obtain fieldName "value" where e: "entry = (fieldName, value)" by (cases entry)
  obtain fr v' where f: "validateField iv v fieldName value False = (fr, v')"
    by (cases "validateField iv v fieldName value False")
  show ?case
  proof (cases fr)
    case (Valid x orig)
    then show ?thesis using Cons.IH[of v'] by (simp add: e f Let_def)
  next
    case (Invalid err)
    then show ?thesis using Cons.IH[of v'] by (simp add: e f Let_def)
  qed
qed

lemma runFields_keys: "map fst (runFields iv v data) = map fst data"
  by (induction data arbitrary: v) auto

lemma set_setProp: "set (setProp obj k x) \<subseteq> insert (k, x) (set obj)"
  by (auto simp: setProp_def split: if_splits)

lemma set_foldl_setProp: "set (foldl (\<lambda>obj (k, x). setProp obj k x) obj xs) \<subseteq> set obj \<union> set xs"
proof (induction xs arbitrary: obj)
  case Nil
  show ?case by simp
next
  case (Cons a xs)
  obtain k x where a: "a = (k, x)" by (cases a)
  show ?case using Cons[of "setProp obj k x"] set_setProp[of obj k x] unfolding a by auto
qed

lemma foldl_setProp_distinct:
  "distinct (map fst (obj @ xs)) \<Longrightarrow> js ''__proto__'' \<notin> fst ` set xs \<Longrightarrow>
     foldl (\<lambda>obj (k, x). setProp obj k x) obj xs = obj @ xs"
proof (induction xs arbitrary: obj)
  case Nil
  show ?case by simp
next
  case (Cons a xs)
  obtain k x where a: "a = (k, x)" by (cases a)
  have s: "setProp obj k x = obj @ [(k, x)]"
    using Cons.prems unfolding a by (auto simp: setProp_def)
  have "foldl (\<lambda>obj (k, x). setProp obj k x) (obj @ [(k, x)]) xs = (obj @ [(k, x)]) @ xs"
    using Cons.prems unfolding a by (intro Cons.IH) auto
  then show ?case unfolding a by (simp add: s)
qed

lemma successesOf_keys: "set (map fst (successesOf rs)) \<subseteq> set (map fst rs)"
  by (induction rs rule: successesOf.induct) auto

lemma successesOf_distinct: "distinct (map fst rs) \<Longrightarrow> distinct (map fst (successesOf rs))"
  using successesOf_keys by (induction rs rule: successesOf.induct) auto

lemma emp_sql: "firstMatch initialSqlInjectionPatterns [69, 77, 80, 48, 48, 49] = (None, initialSqlInjectionPatterns)"
  by (simp add: initialSqlInjectionPatterns_def rx_eval)

lemma emp_os: "firstMatch initialOsCommandPatterns [69, 77, 80, 48, 48, 49] = (None, initialOsCommandPatterns)"
  by (simp add: initialOsCommandPatterns_def rx_eval)

lemma emp_xss: "firstMatch initialXssPatterns [69, 77, 80, 48, 48, 49] = (None, initialXssPatterns)"
  by (simp add: initialXssPatterns_def rx_eval)

lemma emp_scan: "fst (performSecurityCheck newDataValidator (js ''EMP001'') f) = Safe"
  unfolding js_emp
  by (simp add: performSecurityCheck_def newDataValidator_def emp_sql emp_os emp_xss)

lemma emp_rule: "getProp (validationRules newDataValidator) (js ''employeeId'') = Own (snd (initialRules ! 0))"
  by (simp add: getProp_def newDataValidator_def initialRules_def)

lemma emp_pattern:
  "\<not> formatFails (snd (initialRules ! 0)) (js ''EMP001'') \<and> \<not> patternThrows (snd (initialRules ! 0)) (js ''EMP001'')"
  unfolding js_emp by (simp add: formatFails_def patternThrows_def initialRules_def rx_eval)

lemma emp_field:
  "fst (validateField iv newDataValidator (js ''employeeId'') (JString (js ''EMP001'')) False)
     = Valid (sanitizeString iv (JString (js ''EMP001''))) (Some (js ''EMP001''))"
proof -
  have n: "\<not> isNullish (JString (js ''EMP001''))" by (simp add: isNullish_def)
  have c: "toJSString (JString (js ''EMP001'')) = Inr (js ''EMP001'')" by simp
  have s: "fst (performSecurityCheck (incTotal newDataValidator) (js ''EMP001'') (js ''employeeId'')) = Safe"
    by (simp add: performSecurityCheck_incTotal emp_scan)
  have t: "trim (js ''EMP001'') \<noteq> []" by (simp add: js_emp trim_def isSpace_def)
  have r: "maxLength (snd (initialRules ! 0)) = 12 \<and> sanitize (snd (initialRules ! 0))"
    by (simp add: initialRules_def)
  show ?thesis
    unfolding validateField_registered[OF emp_rule] checkField_safe[OF n c s]
    using t r emp_pattern by (simp add: js_emp)
qed
lemma name_rule: "getProp (validationRules newDataValidator) (js ''employeeName'') = Own (snd (initialRules ! 1))"
  by (simp add: getProp_def newDataValidator_def initialRules_def js_def)

lemma name_null:
  "fst (validateField iv newDataValidator (js ''employeeName'') JNull False) = Invalid REQUIRED_FIELD"
  unfolding validateField_registered[OF name_rule]
  by (simp add: checkField_nullish isNullish_def initialRules_def)
text \<open>
  The condition of the first loop, \<open>!(field in data) || data[field] === null ||
  data[field] === undefined\<close>, in terms of the own properties of the data: the name is
  neither an own property nor one inherited from \<open>Object.prototype\<close>, or it is an own
  property whose value is \<open>null\<close> or \<open>undefined\<close>.
\<close>

lemma isMissing_iff:
  "isMissing data field \<longleftrightarrow>
     (map_of data field = None \<and> field \<notin> set objectPrototypeKeys)
     \<or> map_of data field = Some JNull \<or> map_of data field = Some JUndefined"
  by (auto simp: isMissing_def getProp_def isNullish_def split: option.splits)
text \<open>
  Claim C3 fails on the code. The first loop asks \<open>field in data\<close>, which is also true
  of a name that the data only inherits from \<open>Object.prototype\<close>, while the second loop
  goes over the own entries of the data. For the empty object and the required field
  \<open>toString\<close>, which is absent from the data, a new validator records no error and
  answers valid.
\<close>

theorem validateObject_inherited_name_not_reported:
  "map_of ([] :: jsvalue jsobject) (js ''toString'') = None
   \<and> errors (fst (validateObject specInputValidator length newDataValidator [] [js ''toString''])) = []
   \<and> valid (fst (validateObject specInputValidator length newDataValidator [] [js ''toString'']))
   \<and> fieldResults (fst (validateObject specInputValidator length newDataValidator [] [js ''toString''])) = []"
  by (simp add: validateObject_def isMissing_def getProp_def objectPrototypeKeys_def js_def)
text \<open>
  What validateObject does in general. Its errors are one MISSING_REQUIRED_FIELD error for
  each entry of requiredFields that the data neither has nor inherits from
  \<open>Object.prototype\<close>, or has with the value \<open>null\<close> or \<open>undefined\<close>, followed by
  the failures of the field validator, which is run on every key of the data in turn. Only
  sanitized values of successful fields are placed in sanitizedData (all of them, when the
  keys are distinct and none is \<open>__proto__\<close>), the result is valid exactly when nothing
  is missing and no field failed, and the hash is taken of sanitizedData.
\<close>

lemma validateObject_collects:
  "(let res = fst (validateObject iv generateHash v data requiredFields);
        runs = runFields iv v data;
        missing = filter (\<lambda>field. (map_of data field = None \<and> field \<notin> set objectPrototypeKeys)
                                  \<or> map_of data field = Some JNull \<or> map_of data field = Some JUndefined)
                         requiredFields
    in
      errors res = map MISSING_REQUIRED_FIELD missing @ failuresOf runs
    \<and> map fst runs = map fst data
    \<and> set (sanitizedData res) \<subseteq> set (successesOf runs)
    \<and> (distinct (map fst data) \<and> js ''__proto__'' \<notin> set (map fst data) \<longrightarrow> sanitizedData res = successesOf runs)
    \<and> (valid res \<longleftrightarrow> missing = [] \<and> failuresOf runs = [])
    \<and> dataHash res = Some (generateHash (sanitizedData res)))"
proof -
  define res0 :: "'a results" where
    "res0 = \<lparr>valid = True, errors = [], sanitizedData = [], fieldResults = [], dataHash = None\<rparr>"
  define res1 where "res1 = checkRequired data requiredFields res0"
  define res2 where "res2 = fst (validateEntries iv v data res1)"
  define runs where "runs = runFields iv v data"
  define missing where
    "missing = filter (\<lambda>field. (map_of data field = None \<and> field \<notin> set objectPrototypeKeys)
                                  \<or> map_of data field = Some JNull \<or> map_of data field = Some JUndefined)
                         requiredFields"
  have mi: "filter (isMissing data) requiredFields = missing"
    unfolding missing_def by (rule filter_cong) (simp_all add: isMissing_iff)
  have out: "fst (validateObject iv generateHash v data requiredFields)
      = res2\<lparr>dataHash := Some (generateHash (sanitizedData res2))\<rparr>"
    by (simp add: validateObject_def Let_def res0_def res1_def res2_def split: prod.splits)
  have r1: "errors res1 = map MISSING_REQUIRED_FIELD missing"
    "valid res1 = (missing = [])" "sanitizedData res1 = []"
    using checkRequired_fields[of data requiredFields res0] by (simp_all add: res1_def res0_def mi)
  have r2: "errors res2 = errors res1 @ failuresOf runs"
    "valid res2 = (valid res1 \<and> failuresOf runs = [])"
    "sanitizedData res2 = foldl (\<lambda>obj (k, x). setProp obj k x) (sanitizedData res1) (successesOf runs)"
    using validateEntries_fields[of iv v data res1] by (simp_all add: res2_def runs_def)
  have sub: "set (sanitizedData res2) \<subseteq> set (successesOf runs)"
    unfolding r2(3) r1(3) using set_foldl_setProp[of "[]" "successesOf runs"] by simp
  have keys: "map fst runs = map fst data" unfolding runs_def by (rule runFields_keys)
  have all: "sanitizedData res2 = successesOf runs"
    if "distinct (map fst data) \<and> js ''__proto__'' \<notin> set (map fst data)"
  proof -
    have d: "distinct (map fst (successesOf runs))"
      using that keys by (intro successesOf_distinct) simp
    have p: "js ''__proto__'' \<notin> fst ` set (successesOf runs)"
      using that keys successesOf_keys[of runs] by auto
    show ?thesis unfolding r2(3) r1(3)
      using foldl_setProp_distinct[of "[]" "successesOf runs"] d p by simp
  qed
  show ?thesis
    unfolding Let_def out runs_def[symmetric] missing_def[symmetric]
    using r1 r2 sub keys all by simp
qed
text \<open>
  The example of the specification, and a value that is \<open>null\<close>: the required field is
  reported as missing, and the field validator reports it again as a required field without
  a value.
\<close>

lemma validateObject_examples:
  "errors (fst (validateObject iv generateHash newDataValidator
        [(js ''employeeId'', JString (js ''EMP001''))] [js ''employeeId'', js ''employeeName'']))
       = [MISSING_REQUIRED_FIELD (js ''employeeName'')]
   \<and> \<not> valid (fst (validateObject iv generateHash newDataValidator
        [(js ''employeeId'', JString (js ''EMP001''))] [js ''employeeId'', js ''employeeName'']))
   \<and> sanitizedData (fst (validateObject iv generateHash newDataValidator
        [(js ''employeeId'', JString (js ''EMP001''))] [js ''employeeId'', js ''employeeName'']))
       = [(js ''employeeId'', sanitizeString iv (JString (js ''EMP001'')))]
   \<and> errors (fst (validateObject iv generateHash newDataValidator
        [(js ''employeeName'', JNull)] [js ''employeeName'']))
       = [MISSING_REQUIRED_FIELD (js ''employeeName''), FieldFailure (js ''employeeName'') REQUIRED_FIELD]"
proof -
  have runs: "runFields iv newDataValidator [(js ''employeeId'', JString (js ''EMP001''))]
      = [(js ''employeeId'', Valid (sanitizeString iv (JString (js ''EMP001''))) (Some (js ''EMP001'')))]"
    by (simp add: emp_field)
  have runs': "runFields iv newDataValidator [(js ''employeeName'', JNull)]
      = [(js ''employeeName'', Invalid REQUIRED_FIELD)]"
    by (simp add: name_null)
  have k: "js ''employeeId'' \<noteq> js ''employeeName''" "js ''employeeId'' \<noteq> js ''__proto__''"
    "js ''employeeName'' \<notin> set objectPrototypeKeys"
    by (simp_all add: js_def objectPrototypeKeys_def)
  have a: "errors (fst (validateObject iv generateHash newDataValidator
        [(js ''employeeId'', JString (js ''EMP001''))] [js ''employeeId'', js ''employeeName'']))
       = [MISSING_REQUIRED_FIELD (js ''employeeName'')]
   \<and> \<not> valid (fst (validateObject iv generateHash newDataValidator
        [(js ''employeeId'', JString (js ''EMP001''))] [js ''employeeId'', js ''employeeName'']))
   \<and> sanitizedData (fst (validateObject iv generateHash newDataValidator
        [(js ''employeeId'', JString (js ''EMP001''))] [js ''employeeId'', js ''employeeName'']))
       = [(js ''employeeId'', sanitizeString iv (JString (js ''EMP001'')))]"
    using validateObject_collects[of iv generateHash newDataValidator
        "[(js ''employeeId'', JString (js ''EMP001''))]" "[js ''employeeId'', js ''employeeName'']"] k
    unfolding Let_def runs by simp
  have b: "errors (fst (validateObject iv generateHash newDataValidator
        [(js ''employeeName'', JNull)] [js ''employeeName'']))
       = [MISSING_REQUIRED_FIELD (js ''employeeName''), FieldFailure (js ''employeeName'') REQUIRED_FIELD]"
    using validateObject_collects[of iv generateHash newDataValidator
        "[(js ''employeeName'', JNull)]" "[js ''employeeName'']"]
    unfolding Let_def runs' by simp
  show ?thesis using a b by blast
qed

end
